theory Spec2Isabelle
  imports Complex_Main "HOL-Library.Sublist" "HOL-Library.Multiset"
begin

section \<open>Exceptions\<close>

text \<open>
  Python exceptions are values. \<open>KeyboardInterrupt\<close> and \<open>SystemExit\<close> derive from
  \<open>BaseException\<close> only, so a clause \<open>except Exception\<close> does not catch them; every other
  constructor stands for a subclass of \<open>Exception\<close>.
\<close>

datatype exn =
    KeyboardInterrupt
  | SystemExit
  | AssertionError
  | StatisticsError
  | AttributeError
  | IndexError
  | OtherError string

fun is_Exception :: "exn \<Rightarrow> bool" where
  "is_Exception KeyboardInterrupt = False"
| "is_Exception SystemExit = False"
| "is_Exception _ = True"

section \<open>Data model\<close>

text \<open>
  Objects whose identity matters (sources, filters, the simulation wrapper of a task) are
  named by their address, a natural number; Python's default \<open>==\<close> and \<open>hash\<close> on such
  objects are equality of addresses. A number (a probability, a reward) is the rational
  it denotes; a Python float is a rational that \<open>to_double\<close> of the section on statistics
  leaves unchanged. The infinities and NaN are not modelled.
\<close>

type_synonym ref = nat
type_synonym key = int

datatype val = IntV int | StrV string

type_synonym action = val

text \<open>
  Modelled from the spec: keys, contexts, actions and interactions (module
  \<open>coba.simulations\<close>, absent from the source files). A context is \<open>None\<close>, a tuple, or
  any other single value; an interaction has the attributes \<open>key\<close>, \<open>context\<close> and
  \<open>actions\<close> that the engine reads.
\<close>

datatype ctx = NoContext | TupleContext "val list" | ScalarContext val

record interaction =
  ikey :: key
  icontext :: ctx
  iactions :: "action list"

type_synonym reward_fn = "(key \<times> ctx \<times> action) list \<Rightarrow> exn + rat list"

text \<open>
  Modelled from the spec: \<open>Simulation\<close> and \<open>BatchedSimulation\<close> (module
  \<open>coba.simulations\<close>, absent from the source files). A simulation exposes
  \<open>interactions\<close> and \<open>reward\<close>, a batched one \<open>interaction_batches\<close> and \<open>reward\<close>;
  \<open>reward.observe\<close> takes the (key, context, action) triples of a batch and returns their
  rewards, or raises.
\<close>

datatype simulation =
    Simulation "interaction list" reward_fn
  | BatchedSimulation "interaction list list" reward_fn

fun reward :: "simulation \<Rightarrow> reward_fn" where
  "reward (Simulation xs r) = r"
| "reward (BatchedSimulation bs r) = r"

text \<open>
  Modelled from the spec: a caller-supplied learner (class \<open>Learner\<close> of
  \<open>coba.learners\<close>, absent from the source files) is its mutable state and its methods. A
  method returns the new state together with its result or the exception it raised.
  \<open>init_m = None\<close> is a learner without an \<open>init\<close> attribute.
\<close>

record 's learner =
  lstate :: 's
  init_m :: "('s \<Rightarrow> exn option \<times> 's) option"
  predict_m :: "'s \<Rightarrow> key \<Rightarrow> ctx \<Rightarrow> action list \<Rightarrow> (exn + rat list) \<times> 's"
  learn_m :: "'s \<Rightarrow> key \<Rightarrow> ctx \<Rightarrow> action \<Rightarrow> rat \<Rightarrow> rat \<Rightarrow> exn option \<times> 's"

text \<open>
  Modelled from the spec: \<open>CobaRandom\<close> (module \<open>coba.random\<close>, absent from the source
  files). The generator is its state and its \<open>choice(seq, weights)\<close> method, both
  parameters of the model.
\<close>

record 'r coba_random =
  rstate :: 'r
  choice_m :: "'r \<Rightarrow> (action \<times> rat) list \<Rightarrow> rat list \<Rightarrow> (exn + action \<times> rat) \<times> 'r"

text \<open>\<open>BenchmarkTask.BenchmarkTaskLearner\<close>: the fields \<open>_learner\<close> and \<open>_random\<close>.\<close>

record ('s, 'r) task_learner =
  inner :: "'s learner"
  random :: "'r coba_random"

text \<open>
  Modelled from the spec: the simulations given to the benchmark (\<open>Source\<close> of
  \<open>coba.data.sources\<close> and \<open>Pipe.SourceFilters\<close> of \<open>coba.data.pipes\<close>, absent from the
  source files). One is either a \<open>Pipe.SourceFilters\<close>, with its \<open>_source\<close> and its
  \<open>_filter\<close>, or any other source.
\<close>

datatype pipe = SourceFilters ref ref | PlainSource ref

text \<open>
  \<open>BenchmarkTask.BenchmarkTaskSimulation\<close>: a new wrapper object (address \<open>obj\<close>) around
  the pipe.
\<close>

record task_simulation =
  obj :: ref
  pipe :: pipe

fun source :: "task_simulation \<Rightarrow> ref" where
  "source s = (case pipe s of SourceFilters src flt \<Rightarrow> src | PlainSource src \<Rightarrow> src)"

record ('s, 'r) task =
  src_id :: nat
  sim_id :: nat
  lrn_id :: nat
  simulation :: task_simulation
  learner :: "('s, 'r) task_learner"

text \<open>
  \<open>BenchmarkTask.__init__\<close>. The first argument is the constructor of \<open>CobaRandom\<close>, the
  second the address of the new wrapper object.
\<close>

definition BenchmarkTask ::
  "(int option \<Rightarrow> 'r coba_random) \<Rightarrow> ref \<Rightarrow> nat \<Rightarrow> nat \<Rightarrow> nat \<Rightarrow> pipe \<Rightarrow> 's learner \<Rightarrow> int option
    \<Rightarrow> ('s, 'r) task" where
  "BenchmarkTask new_random a src sim lrn p l seed =
     \<lparr>src_id = src, sim_id = sim, lrn_id = lrn,
      simulation = \<lparr>obj = a, pipe = p\<rparr>,
      learner = \<lparr>inner = l, random = new_random seed\<rparr>\<rparr>"

section \<open>Task generator\<close>

text \<open>
  \<open>source_ids = defaultdict(lambda x=count(): next(x))\<close>: the stored entries and the state
  of the counter. Reading a missing key stores and returns the next count.
\<close>

record source_ids =
  entries :: "ref \<rightharpoonup> nat"
  counter :: nat

definition getitem :: "source_ids \<Rightarrow> ref \<Rightarrow> nat \<times> source_ids" where
  "getitem d k =
     (case entries d k of
        Some v \<Rightarrow> (v, d)
      | None \<Rightarrow> (counter d, \<lparr>entries = (entries d)(k \<mapsto> counter d), counter = counter d + 1\<rparr>))"

text \<open>
  The body of the loop of \<open>Tasks.read\<close>, over the pairs that
  \<open>product(enumerate(simulations), enumerate(learners))\<close> enumerates. \<open>a\<close> is the next free
  address for a wrapper object; \<open>deepcopy\<close> of a learner is the same value.
\<close>

fun read_loop ::
  "(int option \<Rightarrow> 'r coba_random) \<Rightarrow> int option \<Rightarrow> source_ids \<Rightarrow> ref
    \<Rightarrow> ((nat \<times> pipe) \<times> (nat \<times> 's learner)) list \<Rightarrow> ('s, 'r) task list" where
  "read_loop new_random seed d a [] = []"
| "read_loop new_random seed d a (((sim_i, sim), (lrn_i, lrn)) # rest) =
     (let sim_source = (case sim of SourceFilters src flt \<Rightarrow> src | PlainSource src \<Rightarrow> src);
          (sid, d') = getitem d sim_source
      in BenchmarkTask new_random a sid sim_i lrn_i sim lrn seed
           # read_loop new_random seed d' (Suc a) rest)"

definition Tasks_read ::
  "(int option \<Rightarrow> 'r coba_random) \<Rightarrow> pipe list \<Rightarrow> 's learner list \<Rightarrow> int option
    \<Rightarrow> ('s, 'r) task list" where
  "Tasks_read new_random simulations learners seed =
     read_loop new_random seed \<lparr>entries = Map.empty, counter = 0\<rparr> 0
       (List.product (List.enumerate 0 simulations) (List.enumerate 0 learners))"

section \<open>Completion filter\<close>

text \<open>
  Modelled from the spec: the Prior Result Store (class \<open>Result\<close> of
  \<open>coba.benchmarks.results\<close>, absent from the source files). Its \<open>simulations\<close> table has
  one row per simulation with the recorded number of batches, \<open>get_where(batch_count=0)\<close>
  selects the rows with no batch, and \<open>batches\<close> holds the completed
  (simulation id, learner id) pairs.
\<close>

record simulation_row =
  simulation_id :: nat
  batch_count :: nat

record result =
  result_simulations :: "simulation_row list"
  result_batches :: "(nat \<times> nat) list"

definition get_where_batch_count :: "simulation_row list \<Rightarrow> nat \<Rightarrow> simulation_row list" where
  "get_where_batch_count rows n = filter (\<lambda>row. batch_count row = n) rows"

definition is_not_complete :: "result \<Rightarrow> nat list \<Rightarrow> nat \<Rightarrow> nat \<Rightarrow> bool" where
  "is_not_complete restored no_batch_sim_ids s l =
     ((s, l) \<notin> set (result_batches restored) \<and> s \<notin> set no_batch_sim_ids)"

definition Unfinished_filter :: "result \<Rightarrow> ('s, 'r) task list \<Rightarrow> ('s, 'r) task list" where
  "Unfinished_filter restored tasks =
     (let no_batch_sim_rows = get_where_batch_count (result_simulations restored) 0;
          no_batch_sim_ids = map simulation_id no_batch_sim_rows
      in filter (\<lambda>t. is_not_complete restored no_batch_sim_ids (sim_id t) (lrn_id t)) tasks)"

section \<open>Learner adapter\<close>

text \<open>
  The methods of \<open>BenchmarkTaskLearner\<close>. Each returns the adapter after the call. \<open>init\<close>
  swallows an \<open>AttributeError\<close>, whether the learner has no \<open>init\<close> or its \<open>init\<close> raised
  one.
\<close>

definition set_lstate :: "('s, 'r) task_learner \<Rightarrow> 's \<Rightarrow> ('s, 'r) task_learner" where
  "set_lstate L s = L\<lparr>inner := (inner L)\<lparr>lstate := s\<rparr>\<rparr>"

definition init :: "('s, 'r) task_learner \<Rightarrow> exn option \<times> ('s, 'r) task_learner" where
  "init L =
     (case init_m (inner L) of
        None \<Rightarrow> (None, L)
      | Some f \<Rightarrow>
          (case f (lstate (inner L)) of
             (r, s') \<Rightarrow> (if r = Some AttributeError then None else r, set_lstate L s')))"

definition predict ::
  "('s, 'r) task_learner \<Rightarrow> key \<Rightarrow> ctx \<Rightarrow> action list \<Rightarrow> (exn + rat list) \<times> ('s, 'r) task_learner" where
  "predict L k c as =
     (case predict_m (inner L) (lstate (inner L)) k c as of (r, s') \<Rightarrow> (r, set_lstate L s'))"

definition choose_action ::
  "('s, 'r) task_learner \<Rightarrow> key \<Rightarrow> ctx \<Rightarrow> action list
    \<Rightarrow> (exn + action \<times> rat) \<times> ('s, 'r) task_learner" where
  "choose_action L k c as =
     (case predict L k c as of
        (Inl e, L') \<Rightarrow> (Inl e, L')
      | (Inr p, L') \<Rightarrow>
          (let cs = zip as p in
           if \<not> \<bar>sum_list p - 1\<bar> < 1 / 10000 then (Inl AssertionError, L')
           else (case choice_m (random L') (rstate (random L')) cs p of
                   (r, g') \<Rightarrow> (r, L'\<lparr>random := (random L')\<lparr>rstate := g'\<rparr>\<rparr>))))"

definition learn ::
  "('s, 'r) task_learner \<Rightarrow> key \<Rightarrow> ctx \<Rightarrow> action \<Rightarrow> rat \<Rightarrow> rat
    \<Rightarrow> exn option \<times> ('s, 'r) task_learner" where
  "learn L k c a r p =
     (case learn_m (inner L) (lstate (inner L)) k c a r p of (e, s') \<Rightarrow> (e, set_lstate L s'))"

section \<open>Statistics\<close>

text \<open>
  Rounding to the nearest integer, a tie going to the even one.
\<close>

definition round_half_even :: "rat \<Rightarrow> int" where
  "round_half_even x =
     (let f = \<lfloor>x\<rfloor>; d = x - of_int f
      in if d < 1 / 2 then f else if 1 / 2 < d then f + 1 else if even f then f else f + 1)"

text \<open>
  The conversion of an exact number to a float, as \<open>float(Fraction(...))\<close> and the
  parsing of a decimal numeral do it (IEEE 754 binary64, rounding to nearest, a tie going
  to the even significand). \<open>bit_length\<close> is \<open>int.bit_length\<close>; \<open>float_exponent x\<close> is
  the \<open>e\<close> with \<open>2 ^ e \<le> \<bar>x\<bar> < 2 ^ (e + 1)\<close>. A float has 53 significant bits, so
  the floats around \<open>x\<close> are the multiples of \<open>2 ^ (e - 52)\<close>, and those of
  \<open>2 ^ (- 1074)\<close> below the least normal number \<open>2 ^ (- 1022)\<close>. The numbers the engine
  converts lie between floats (a mean lies between the least and the greatest of its
  arguments), so the overflow of the conversion beyond the greatest float does not arise
  and is not modelled.
\<close>

fun bit_length :: "nat \<Rightarrow> nat" where
  "bit_length n = (if n = 0 then 0 else Suc (bit_length (n div 2)))"

declare bit_length.simps [simp del]

definition float_exponent :: "rat \<Rightarrow> int" where
  "float_exponent x =
     (if 1 \<le> \<bar>x\<bar> then int (bit_length (nat \<lfloor>\<bar>x\<bar>\<rfloor>)) - 1
      else - int (bit_length (nat (\<lceil>1 / \<bar>x\<bar>\<rceil> - 1))))"

definition pow2 :: "int \<Rightarrow> rat" where
  "pow2 e = (if 0 \<le> e then 2 ^ nat e else 1 / 2 ^ nat (- e))"

definition to_double :: "rat \<Rightarrow> rat" where
  "to_double x =
     (if x = 0 then 0
      else (let e = max (float_exponent x) (- 1022); q = pow2 (e - 52)
            in of_int (round_half_even (x / q)) * q))"

text \<open>
  \<open>statistics.mean\<close> and \<open>statistics.median\<close> raise \<open>StatisticsError\<close> on empty data.
  The mean of floats is the exact sum of their values divided exactly by their number and
  then converted to a float. The median of an even number of values is the mean of the two
  middle ones. \<open>int\<close> truncates towards zero. \<open>round(x, n)\<close> of a float rounds the exact
  value of \<open>x\<close> to \<open>n\<close> decimal digits, a tie going to the even digit, and converts the
  decimal number to a float.
\<close>

definition mean :: "rat list \<Rightarrow> exn + rat" where
  "mean xs =
     (if xs = [] then Inl StatisticsError
      else Inr (to_double (sum_list xs / of_nat (length xs))))"

definition median :: "nat list \<Rightarrow> exn + rat" where
  "median xs =
     (let data = sort xs; n = length data
      in if n = 0 then Inl StatisticsError
         else if n mod 2 = 1 then Inr (of_nat (data ! (n div 2)))
         else (let i = n div 2 in Inr ((of_nat (data ! (i - 1)) + of_nat (data ! i)) / 2)))"

definition py_int :: "rat \<Rightarrow> int" where
  "py_int x = (if 0 \<le> x then \<lfloor>x\<rfloor> else \<lceil>x\<rceil>)"

definition py_round :: "rat \<Rightarrow> nat \<Rightarrow> rat" where
  "py_round x n = to_double (of_int (round_half_even (x * 10 ^ n)) / 10 ^ n)"

section \<open>Evaluation engine\<close>

text \<open>
  The calls the engine makes, in the order it makes them. The inner handler logs
  "Unhandled exception:" (\<open>EvLogException\<close>), the outer one "unhandled exception:"
  (\<open>EvLogGroupException\<close>).
\<close>

datatype event =
    EvChoose key ctx "action list"
  | EvObserve "(key \<times> ctx \<times> action) list"
  | EvLearn key ctx action rat rat
  | EvInit
  | EvRead nat ref
  | EvCreate nat
  | EvNothing nat
  | EvAttempt nat nat
  | EvLogException exn
  | EvLogGroupException exn

text \<open>
  Modelled from the spec: the Result Record that
  \<open>Transaction.batch(sim_id, lrn_id, C=..., A=..., N=..., reward=...)\<close> builds (module
  \<open>coba.benchmarks.transactions\<close>, absent from the source files).
\<close>

record transaction =
  t_sim_id :: nat
  t_lrn_id :: nat
  t_C :: "int list"
  t_A :: "int list"
  t_N :: "nat list"
  t_reward :: "rat list"

fun context_size :: "ctx \<Rightarrow> nat" where
  "context_size NoContext = 0"
| "context_size (TupleContext xs) = length xs"
| "context_size (ScalarContext x) = 1"

definition context_sizes :: "interaction list \<Rightarrow> nat list" where
  "context_sizes interactions = map context_size (map icontext interactions)"

definition action_counts :: "interaction list \<Rightarrow> nat list" where
  "action_counts interactions =
     (if length interactions = 0 then [0] else []) @ map length (map iactions interactions)"

text \<open>The first loop of \<open>_process_batch\<close>: one \<open>choose\<close> per interaction.\<close>

fun choose_loop ::
  "('s, 'r) task_learner \<Rightarrow> interaction list \<Rightarrow> key list \<Rightarrow> ctx list \<Rightarrow> action list \<Rightarrow> rat list
    \<Rightarrow> (exn + key list \<times> ctx list \<times> action list \<times> rat list) \<times> ('s, 'r) task_learner \<times> event list" where
  "choose_loop L [] keys contexts actions probs = (Inr (keys, contexts, actions, probs), L, [])"
| "choose_loop L (i # batch) keys contexts actions probs =
     (case choose_action L (ikey i) (icontext i) (iactions i) of
        (Inl e, L') \<Rightarrow> (Inl e, L', [EvChoose (ikey i) (icontext i) (iactions i)])
      | (Inr (a, p), L') \<Rightarrow>
          (case choose_loop L' batch (keys @ [ikey i]) (contexts @ [icontext i])
                  (actions @ [a]) (probs @ [p]) of
             (r, L'', tr) \<Rightarrow> (r, L'', EvChoose (ikey i) (icontext i) (iactions i) # tr)))"

text \<open>The second loop: one \<open>learn\<close> per element of the zipped lists.\<close>

fun learn_loop ::
  "('s, 'r) task_learner \<Rightarrow> (key \<times> ctx \<times> action \<times> rat \<times> rat) list
    \<Rightarrow> exn option \<times> ('s, 'r) task_learner \<times> event list" where
  "learn_loop L [] = (None, L, [])"
| "learn_loop L ((k, c, a, r, p) # rest) =
     (case learn L k c a r p of
        (Some e, L') \<Rightarrow> (Some e, L', [EvLearn k c a r p])
      | (None, L') \<Rightarrow>
          (case learn_loop L' rest of (x, L'', tr) \<Rightarrow> (x, L'', EvLearn k c a r p # tr)))"

definition process_batch ::
  "interaction list \<Rightarrow> ('s, 'r) task_learner \<Rightarrow> reward_fn
    \<Rightarrow> (exn + rat) \<times> ('s, 'r) task_learner \<times> event list" where
  "process_batch batch L rwd =
     (case choose_loop L batch [] [] [] [] of
        (Inl e, L1, tr1) \<Rightarrow> (Inl e, L1, tr1)
      | (Inr (keys, contexts, actions, probs), L1, tr1) \<Rightarrow>
          (let triples = zip keys (zip contexts actions) in
           case rwd triples of
             Inl e \<Rightarrow> (Inl e, L1, tr1 @ [EvObserve triples])
           | Inr rewards \<Rightarrow>
               (case learn_loop L1 (zip keys (zip contexts (zip actions (zip rewards probs)))) of
                  (Some e, L2, tr2) \<Rightarrow> (Inl e, L2, tr1 @ [EvObserve triples] @ tr2)
                | (None, L2, tr2) \<Rightarrow>
                    (case mean rewards of
                       Inl e \<Rightarrow> (Inl e, L2, tr1 @ [EvObserve triples] @ tr2)
                     | Inr m \<Rightarrow> (Inr (py_round m 5), L2, tr1 @ [EvObserve triples] @ tr2)))))"

text \<open>A list comprehension whose element expression may raise stops at the first raise.\<close>

fun comprehension :: "('a \<Rightarrow> exn + 'b) \<Rightarrow> 'a list \<Rightarrow> exn + 'b list" where
  "comprehension f [] = Inr []"
| "comprehension f (x # xs) =
     (case f x of
        Inl e \<Rightarrow> Inl e
      | Inr y \<Rightarrow> (case comprehension f xs of Inl e \<Rightarrow> Inl e | Inr ys \<Rightarrow> Inr (y # ys)))"

definition int_median :: "nat list \<Rightarrow> exn + int" where
  "int_median xs = (case median xs of Inl e \<Rightarrow> Inl e | Inr m \<Rightarrow> Inr (py_int m))"

text \<open>\<open>[ self._process_batch(batch, learner, simulation.reward) for batch in batches ]\<close>\<close>

fun process_batches ::
  "('s, 'r) task_learner \<Rightarrow> interaction list list \<Rightarrow> reward_fn
    \<Rightarrow> (exn + rat list) \<times> ('s, 'r) task_learner \<times> event list" where
  "process_batches L [] rwd = (Inr [], L, [])"
| "process_batches L (batch # batches) rwd =
     (case process_batch batch L rwd of
        (Inl e, L', tr) \<Rightarrow> (Inl e, L', tr)
      | (Inr m, L', tr) \<Rightarrow>
          (case process_batches L' batches rwd of
             (Inl e, L'', tr') \<Rightarrow> (Inl e, L'', tr @ tr')
           | (Inr ms, L'', tr') \<Rightarrow> (Inr (m # ms), L'', tr @ tr')))"

text \<open>
  The body of the inner \<open>try\<close> of \<open>_process_group\<close>: the evaluation of one learner on the
  batches of one simulation, up to the transaction it yields.
\<close>

definition evaluate ::
  "nat \<Rightarrow> nat \<Rightarrow> ('s, 'r) task_learner \<Rightarrow> interaction list list \<Rightarrow> reward_fn
    \<Rightarrow> (exn + transaction) \<times> ('s, 'r) task_learner \<times> event list" where
  "evaluate s l L batches rwd =
     (case init L of
        (Some e, L0) \<Rightarrow> (Inl e, L0, [EvInit])
      | (None, L0) \<Rightarrow>
          (case comprehension (\<lambda>batch. int_median (context_sizes batch)) batches of
             Inl e \<Rightarrow> (Inl e, L0, [EvInit])
           | Inr cs \<Rightarrow>
               (case comprehension (\<lambda>batch. int_median (action_counts batch)) batches of
                  Inl e \<Rightarrow> (Inl e, L0, [EvInit])
                | Inr acs \<Rightarrow>
                    (let batch_sizes = map length batches in
                     case process_batches L0 batches rwd of
                       (Inl e, L1, tr) \<Rightarrow> (Inl e, L1, EvInit # tr)
                     | (Inr mean_rewards, L1, tr) \<Rightarrow>
                         (Inr \<lparr>t_sim_id = s, t_lrn_id = l, t_C = cs, t_A = acs,
                               t_N = batch_sizes, t_reward = mean_rewards\<rparr>, L1, EvInit # tr)))))"

text \<open>\<open>del xs[i]\<close> for an index in range.\<close>

definition del :: "'a list \<Rightarrow> nat \<Rightarrow> 'a list" where
  "del xs i = take i xs @ drop (Suc i) xs"

text \<open>
  What a loop of the engine leaves behind: the transactions it yielded, its calls, and the
  exception that left it, if any. The loop over the learners also leaves the two pending
  lists \<open>learner_ids\<close> and \<open>learners\<close>.
\<close>

type_synonym outcome = "transaction list \<times> event list \<times> exn option"

text \<open>The three components of an outcome.\<close>

abbreviation yielded_of :: "outcome \<Rightarrow> transaction list" where
  "yielded_of out \<equiv> fst out"

abbreviation events_of :: "outcome \<Rightarrow> event list" where
  "events_of out \<equiv> fst (snd out)"

abbreviation raised_of :: "outcome \<Rightarrow> exn option" where
  "raised_of out \<equiv> snd (snd out)"

text \<open>
  \<open>for i in sorted(range(len(learners)), reverse=True)\<close>, over the indices still to visit.
  Reading \<open>learner_ids[i]\<close> or \<open>learners[i]\<close> out of range raises \<open>IndexError\<close> outside the
  inner \<open>try\<close>. The \<open>finally\<close> clause deletes index \<open>i\<close> from both lists on every path.
\<close>

fun learner_loop ::
  "bool \<Rightarrow> nat \<Rightarrow> interaction list list \<Rightarrow> reward_fn \<Rightarrow> nat list \<Rightarrow> nat list
    \<Rightarrow> ('s, 'r) task_learner list \<Rightarrow> outcome \<times> nat list \<times> ('s, 'r) task_learner list" where
  "learner_loop ignore_raise s batches rwd [] learner_ids learners =
     (([], [], None), learner_ids, learners)"
| "learner_loop ignore_raise s batches rwd (i # is) learner_ids learners =
     (if \<not> i < length learner_ids \<or> \<not> i < length learners
      then (([], [], Some IndexError), learner_ids, learners)
      else
        (let l = learner_ids ! i; L = learners ! i in
         case evaluate s l L batches rwd of
           (Inr t, L', tr) \<Rightarrow>
             (case learner_loop ignore_raise s batches rwd is (del learner_ids i) (del learners i) of
                ((ts, tr', x), pending) \<Rightarrow> ((t # ts, EvAttempt s l # tr @ tr', x), pending))
         | (Inl e, L', tr) \<Rightarrow>
             (if is_Exception e then
                (if \<not> ignore_raise
                 then (([], EvAttempt s l # tr @ [EvLogException e], Some e),
                       del learner_ids i, del learners i)
                 else
                   (case learner_loop ignore_raise s batches rwd is
                           (del learner_ids i) (del learners i) of
                      ((ts, tr', x), pending) \<Rightarrow>
                        ((ts, EvAttempt s l # tr @ [EvLogException e] @ tr', x), pending)))
              else (([], EvAttempt s l # tr, Some e), del learner_ids i, del learners i))))"

text \<open>
  The world outside the engine, a parameter of the model: what \<open>read()\<close> of a source
  returns and what \<open>filter\<close> of a filter object returns, by address.
\<close>

record world =
  source_read :: "ref \<Rightarrow> exn + simulation"
  filter_apply :: "ref \<Rightarrow> simulation \<Rightarrow> exn + simulation"

text \<open>
  \<open>sim.filter.filter(loaded_source)\<close>: the filter of a \<open>SourceFilters\<close> pipe, the
  \<open>IdentityFilter\<close> otherwise.
\<close>

definition sim_filter :: "world \<Rightarrow> task_simulation \<Rightarrow> simulation \<Rightarrow> exn + simulation" where
  "sim_filter w sim loaded =
     (case pipe sim of
        SourceFilters src flt \<Rightarrow> filter_apply w flt loaded
      | PlainSource src \<Rightarrow> Inr loaded)"

fun batchify :: "simulation \<Rightarrow> interaction list list" where
  "batchify (BatchedSimulation interaction_batches r) = interaction_batches"
| "batchify (Simulation interactions r) = map (\<lambda>interaction. [interaction]) interactions"

text \<open>
  \<open>itertools.groupby\<close>: maximal runs of consecutive elements whose key equals the key of
  the first element of the run.
\<close>

function groupby :: "('a \<Rightarrow> 'k) \<Rightarrow> 'a list \<Rightarrow> ('k \<times> 'a list) list" where
  "groupby f [] = []"
| "groupby f (x # xs) =
     (f x, x # takeWhile (\<lambda>y. f y = f x) xs) # groupby f (dropWhile (\<lambda>y. f y = f x) xs)"
  by pat_completeness auto
termination
  by (relation "measure (\<lambda>(f, xs). length xs)") (auto simp: length_dropWhile_le less_Suc_eq_le)

definition srt_src :: "('s, 'r) task \<Rightarrow> nat" where
  "srt_src t = src_id t"

definition grp_src :: "('s, 'r) task \<Rightarrow> nat \<times> ref" where
  "grp_src t = (src_id t, source (simulation t))"

definition srt_sim :: "('s, 'r) task \<Rightarrow> nat" where
  "srt_sim t = sim_id t"

definition grp_sim :: "('s, 'r) task \<Rightarrow> nat \<times> task_simulation" where
  "grp_sim t = (sim_id t, simulation t)"

text \<open>The loop over the simulations of one loaded source.\<close>

fun simulations_loop ::
  "bool \<Rightarrow> world \<Rightarrow> simulation \<Rightarrow> ((nat \<times> task_simulation) \<times> ('s, 'r) task list) list \<Rightarrow> outcome" where
  "simulations_loop ignore_raise w loaded_source [] = ([], [], None)"
| "simulations_loop ignore_raise w loaded_source (((s, sim), tasks_by_src_sim) # rest) =
     (let learner_ids = map lrn_id tasks_by_src_sim;
          learners = map learner tasks_by_src_sim
      in case sim_filter w sim loaded_source of
           Inl e \<Rightarrow> ([], [EvCreate s], Some e)
         | Inr sm \<Rightarrow>
             (let batches = batchify sm in
              if batches = [] then
                (case simulations_loop ignore_raise w loaded_source rest of
                   (ts, tr, x) \<Rightarrow> (ts, EvCreate s # EvNothing s # tr, x))
              else
                (case learner_loop ignore_raise s batches (reward sm)
                        (rev [0..<length learners]) learner_ids learners of
                   ((ts, tr, Some e), pending) \<Rightarrow> (ts, EvCreate s # tr, Some e)
                 | ((ts, tr, None), pending) \<Rightarrow>
                     (case simulations_loop ignore_raise w loaded_source rest of
                        (ts', tr', x) \<Rightarrow> (ts @ ts', EvCreate s # tr @ tr', x)))))"

text \<open>The loop over the sources of the task group.\<close>

fun sources_loop ::
  "bool \<Rightarrow> world \<Rightarrow> ((nat \<times> ref) \<times> ('s, 'r) task list) list \<Rightarrow> outcome" where
  "sources_loop ignore_raise w [] = ([], [], None)"
| "sources_loop ignore_raise w (((sid, src), tasks_by_src) # rest) =
     (case source_read w src of
        Inl e \<Rightarrow> ([], [EvRead sid src], Some e)
      | Inr loaded_source \<Rightarrow>
          (case simulations_loop ignore_raise w loaded_source
                  (groupby grp_sim (sort_key srt_sim tasks_by_src)) of
             (ts, tr, Some e) \<Rightarrow> (ts, EvRead sid src # tr, Some e)
           | (ts, tr, None) \<Rightarrow>
               (case sources_loop ignore_raise w rest of
                  (ts', tr', x) \<Rightarrow> (ts @ ts', EvRead sid src # tr @ tr', x))))"

text \<open>
  \<open>Transactions._process_group\<close>: the outer \<open>try\<close> re-raises a \<open>KeyboardInterrupt\<close>, logs
  any other \<open>Exception\<close> and re-raises it unless \<open>ignore_raise\<close> is set.
\<close>

definition process_group :: "bool \<Rightarrow> world \<Rightarrow> ('s, 'r) task list \<Rightarrow> outcome" where
  "process_group ignore_raise w task_group =
     (case sources_loop ignore_raise w (groupby grp_src (sort_key srt_src task_group)) of
        (ts, tr, None) \<Rightarrow> (ts, tr, None)
      | (ts, tr, Some e) \<Rightarrow>
          (if e = KeyboardInterrupt then (ts, tr, Some e)
           else if is_Exception e then
             (if \<not> ignore_raise then (ts, tr @ [EvLogGroupException e], Some e)
              else (ts, tr @ [EvLogGroupException e], None))
           else (ts, tr, Some e)))"

text \<open>\<open>Transactions.filter\<close>: the groups are chained into one sequence of tasks.\<close>

definition Transactions_filter :: "bool \<Rightarrow> world \<Rightarrow> ('s, 'r) task list list \<Rightarrow> outcome" where
  "Transactions_filter ignore_raise w task_groups = process_group ignore_raise w (concat task_groups)"

section \<open>Grouping stage\<close>

definition GroupBySource_filter :: "('s, 'r) task list \<Rightarrow> ('s, 'r) task list list" where
  "GroupBySource_filter tasks = map snd (groupby src_id (sort_key src_id tasks))"

definition GroupByNone_filter :: "('s, 'r) task list \<Rightarrow> ('s, 'r) task list list" where
  "GroupByNone_filter tasks = map (\<lambda>task. [task]) tasks"

section \<open>Specification-side notions and example inputs\<close>

text \<open>
  The id the specification gives a source: the number of distinct sources met before its
  first occurrence in the sequence \<open>srcs\<close>.
\<close>

definition first_occurrence_id :: "ref list \<Rightarrow> ref \<Rightarrow> nat" where
  "first_occurrence_id srcs s = length (remdups (takeWhile (\<lambda>x. x \<noteq> s) srcs))"

text \<open>The dictionary holds exactly the sources of \<open>seen\<close>, each with its first-occurrence id.\<close>

definition represents :: "source_ids \<Rightarrow> ref list \<Rightarrow> bool" where
  "represents d seen =
     (counter d = card (set seen) \<and>
      (\<forall>s. entries d s = (if s \<in> set seen then Some (first_occurrence_id seen s) else None)))"

text \<open>The underlying source of a simulation, as \<open>Tasks.read\<close> computes it.\<close>

definition pipe_source :: "pipe \<Rightarrow> ref" where
  "pipe_source p = (case p of SourceFilters src flt \<Rightarrow> src | PlainSource src \<Rightarrow> src)"

text \<open>
  Inputs for the examples: a learner without \<open>init\<close> whose \<open>predict\<close> always returns the
  same probabilities, and a generator whose \<open>choice\<close> returns the first element.
\<close>

definition fixed_learner :: "rat list \<Rightarrow> unit learner" where
  "fixed_learner ps =
     \<lparr>lstate = (), init_m = None,
      predict_m = (\<lambda>s k c as. (Inr ps, s)),
      learn_m = (\<lambda>s k c a r p. (None, s))\<rparr>"

definition first_choice :: "unit coba_random" where
  "first_choice =
     \<lparr>rstate = (),
      choice_m = (\<lambda>g seq weights. (case seq of [] \<Rightarrow> Inl IndexError | x # xs \<Rightarrow> Inr x, g))\<rparr>"

text \<open>
  The first phase of the online loop as the specification words it, and the events that
  stand for a call of \<open>choose\<close> and of \<open>learn\<close>.
\<close>

fun choose_each ::
  "('s, 'r) task_learner \<Rightarrow> interaction list \<Rightarrow> (action \<times> rat) list option \<times> ('s, 'r) task_learner" where
  "choose_each L [] = (Some [], L)"
| "choose_each L (i # batch) =
     (case choose_action L (ikey i) (icontext i) (iactions i) of
        (Inl e, L') \<Rightarrow> (None, L')
      | (Inr ap, L') \<Rightarrow>
          (case choose_each L' batch of
             (None, L'') \<Rightarrow> (None, L'')
           | (Some aps, L'') \<Rightarrow> (Some (ap # aps), L'')))"

definition choose_call :: "interaction \<Rightarrow> event" where
  "choose_call i = EvChoose (ikey i) (icontext i) (iactions i)"

definition learn_call :: "key \<times> ctx \<times> action \<times> rat \<times> rat \<Rightarrow> event" where
  "learn_call q = (case q of (k, c, a, r, p) \<Rightarrow> EvLearn k c a r p)"

text \<open>More example inputs: an adapter around the fixed learner, and two batches.\<close>

definition example_learner :: "rat list \<Rightarrow> (unit, unit) task_learner" where
  "example_learner ps = \<lparr>inner = fixed_learner ps, random = first_choice\<rparr>"

definition example_batch :: "interaction list" where
  "example_batch =
     [\<lparr>ikey = 0, icontext = TupleContext [IntV 1, IntV 2, IntV 3], iactions = [IntV 0, IntV 1]\<rparr>,
      \<lparr>ikey = 1, icontext = NoContext, iactions = [IntV 0, IntV 1]\<rparr>]"

definition example_batch3 :: "interaction list" where
  "example_batch3 =
     example_batch @ [\<lparr>ikey = 2, icontext = ScalarContext (StrV ''a''), iactions = [IntV 0, IntV 1]\<rparr>]"

text \<open>The specification's reading of the median of an even number of values.\<close>

definition lower_middle :: "nat list \<Rightarrow> nat" where
  "lower_middle xs = sort xs ! (length xs div 2 - 1)"


fun is_attempt :: "event \<Rightarrow> bool" where
  "is_attempt (EvAttempt s l) = True"
| "is_attempt e = False"

fun is_call :: "event \<Rightarrow> bool" where
  "is_call (EvChoose k c as) = True"
| "is_call (EvObserve ts) = True"
| "is_call (EvLearn k c a r p) = True"
| "is_call EvInit = True"
| "is_call e = False"




text \<open>
  The visits of the engine: reading a source and creating a simulation. \<open>visit_plan\<close> is
  the order of the visits the engine makes of a sequence of tasks when nothing stops it:
  sources by ascending source id, the simulations of a source by ascending simulation id.
\<close>

fun is_visit :: "event \<Rightarrow> bool" where
  "is_visit (EvRead sid src) = True"
| "is_visit (EvCreate s) = True"
| "is_visit e = False"





text \<open>A world for the examples: every source holds one batch, every filter is the identity.\<close>

definition example_world :: world where
  "example_world =
     \<lparr>source_read = (\<lambda>src. Inr (BatchedSimulation [example_batch] (\<lambda>ts. Inr (map (\<lambda>t. 1) ts)))),
      filter_apply = (\<lambda>flt sm. Inr sm)\<rparr>"


text \<open>Three simulations, the first and the third over the same source, and one learner.\<close>

definition example_tasks :: "(unit, unit) task list" where
  "example_tasks =
     Tasks_read (\<lambda>seed. first_choice) [SourceFilters 7 1, PlainSource 9, SourceFilters 7 2]
       [fixed_learner [1/2, 1/2]] None"




text \<open>One simulation and three learners, the second predicting [0.5, 0.6].\<close>

definition example_tasks_one_failing :: "(unit, unit) task list" where
  "example_tasks_one_failing =
     Tasks_read (\<lambda>seed. first_choice) [SourceFilters 7 1]
       [fixed_learner [1/2, 1/2], fixed_learner [1/2, 3/5], fixed_learner [1/2, 1/2]] None"

text \<open>
  The mean reward of a batch as the specification words it, on floats: the arithmetic mean
  of the rewards, as a float, rounded to 5 decimal digits, as a float.
\<close>

definition rounded_mean :: "rat list \<Rightarrow> rat" where
  "rounded_mean rs =
     to_double (of_int (round_half_even
       (to_double (sum_list rs / of_nat (length rs)) * 100000)) / 100000)"

text \<open>The arguments of the requests for rewards among the calls, in order.\<close>

fun observed :: "event list \<Rightarrow> (key \<times> ctx \<times> action) list list" where
  "observed [] = []"
| "observed (EvObserve triples # tr) = triples # observed tr"
| "observed (e # tr) = observed tr"

section \<open>Task generator: the cross product\<close>

lemma product_map:
  "map (\<lambda>(a, b). (f a, g b)) (List.product xs ys) = List.product (map f xs) (map g ys)"
  by (induction xs) (auto simp: comp_def)

lemma read_loop_fields:
  "map (\<lambda>t. ((sim_id t, pipe (simulation t)), (lrn_id t, inner (learner t))))
     (read_loop nr seed d a ps) = ps"
proof (induction ps arbitrary: d a)
  case Nil
  show ?case by simp
next
  case (Cons p ps)
  obtain i s j l where p: "p = ((i, s), (j, l))" by (metis surj_pair)
  show ?case using Cons by (simp add: p BenchmarkTask_def Let_def split: prod.splits)
qed

lemma Tasks_read_fields:
  "map (\<lambda>t. ((sim_id t, pipe (simulation t)), (lrn_id t, inner (learner t))))
     (Tasks_read nr sims lrns seed)
   = List.product (List.enumerate 0 sims) (List.enumerate 0 lrns)"
  by (simp add: Tasks_read_def read_loop_fields)

lemma Tasks_read_ids:
  "map (\<lambda>t. (sim_id t, lrn_id t)) (Tasks_read nr sims lrns seed)
   = List.product [0..<length sims] [0..<length lrns]"
proof -
  have "map (\<lambda>t. (sim_id t, lrn_id t)) (Tasks_read nr sims lrns seed)
      = map (\<lambda>(a, b). (fst a, fst b))
          (map (\<lambda>t. ((sim_id t, pipe (simulation t)), (lrn_id t, inner (learner t))))
             (Tasks_read nr sims lrns seed))"
    by (simp add: comp_def)
  also have "\<dots> = List.product (map fst (List.enumerate 0 sims)) (map fst (List.enumerate 0 lrns))"
    by (simp only: Tasks_read_fields product_map)
  finally show ?thesis by simp
qed

lemma Tasks_read_objs:
  "map (\<lambda>t. (pipe (simulation t), inner (learner t))) (Tasks_read nr sims lrns seed)
   = List.product sims lrns"
proof -
  have "map (\<lambda>t. (pipe (simulation t), inner (learner t))) (Tasks_read nr sims lrns seed)
      = map (\<lambda>(a, b). (snd a, snd b))
          (map (\<lambda>t. ((sim_id t, pipe (simulation t)), (lrn_id t, inner (learner t))))
             (Tasks_read nr sims lrns seed))"
    by (simp add: comp_def)
  also have "\<dots> = List.product (map snd (List.enumerate 0 sims)) (map snd (List.enumerate 0 lrns))"
    by (simp only: Tasks_read_fields product_map)
  finally show ?thesis by simp
qed

lemma Tasks_read_length: "length (Tasks_read nr sims lrns seed) = length sims * length lrns"
proof -
  have "length (Tasks_read nr sims lrns seed)
      = length (map (\<lambda>t. (sim_id t, lrn_id t)) (Tasks_read nr sims lrns seed))"
    by simp
  also have "\<dots> = length sims * length lrns"
    by (simp only: Tasks_read_ids length_product) simp
  finally show ?thesis .
qed

text \<open>
  Claim C3. Reading the task generator yields \<open>|S| * |L|\<close> tasks; their
  (simulation id, learner id) pairs are the pairs of 0-based positions in nested
  (simulation, learner) order; the task at a pair holds the simulation and the learner at
  those positions; and no pair occurs twice.
\<close>

theorem Tasks_read_cross_product:
  "length (Tasks_read nr sims lrns seed) = length sims * length lrns
   \<and> map (\<lambda>t. (sim_id t, lrn_id t)) (Tasks_read nr sims lrns seed)
       = List.product [0..<length sims] [0..<length lrns]
   \<and> map (\<lambda>t. (pipe (simulation t), inner (learner t))) (Tasks_read nr sims lrns seed)
       = List.product sims lrns
   \<and> distinct (map (\<lambda>t. (sim_id t, lrn_id t)) (Tasks_read nr sims lrns seed))"
proof -
  have "distinct (List.product [0..<length sims] [0..<length lrns])"
    by (simp add: distinct_product)
  then show ?thesis
    by (simp only: Tasks_read_ids Tasks_read_objs Tasks_read_length)
qed

section \<open>Completion filter: the surviving tasks\<close>

text \<open>
  Claim C5. The completion filter keeps, in input order, exactly the tasks whose
  (simulation id, learner id) pair has no recorded result and whose simulation id has no
  row with zero batches. With the pair (2, 1) completed and simulation 3 recorded with zero
  batches, the six tasks over simulations 1, 2, 3 and learners 0, 1 leave (1, 0), (1, 1)
  and (2, 0).
\<close>

theorem Unfinished_filter_keeps:
  "Unfinished_filter restored tasks =
     filter (\<lambda>t. (sim_id t, lrn_id t) \<notin> set (result_batches restored)
                 \<and> \<not> (\<exists>row \<in> set (result_simulations restored).
                          simulation_id row = sim_id t \<and> batch_count row = 0)) tasks
   \<and> map (\<lambda>t. (sim_id t, lrn_id t))
       (Unfinished_filter
          \<lparr>result_simulations = [\<lparr>simulation_id = 3, batch_count = 0\<rparr>],
           result_batches = [(2, 1)]\<rparr>
          (map (\<lambda>(s, l). BenchmarkTask (\<lambda>seed. first_choice) 0 0 s l (PlainSource 0)
                            (fixed_learner [1]) None)
             (List.product [1, 2, 3] [0, 1])))
     = [(1, 0), (1, 1), (2, 0)]"
proof
  show "Unfinished_filter restored tasks =
     filter (\<lambda>t. (sim_id t, lrn_id t) \<notin> set (result_batches restored)
                 \<and> \<not> (\<exists>row \<in> set (result_simulations restored).
                          simulation_id row = sim_id t \<and> batch_count row = 0)) tasks"
    unfolding Unfinished_filter_def Let_def is_not_complete_def get_where_batch_count_def
    by (rule filter_cong) (auto simp: image_iff)
next
  show "map (\<lambda>t. (sim_id t, lrn_id t))
       (Unfinished_filter
          \<lparr>result_simulations = [\<lparr>simulation_id = 3, batch_count = 0\<rparr>],
           result_batches = [(2, 1)]\<rparr>
          (map (\<lambda>(s, l). BenchmarkTask (\<lambda>seed. first_choice) 0 0 s l (PlainSource 0)
                            (fixed_learner [1]) None)
             (List.product [1, 2, 3] [0, 1])))
     = [(1, 0), (1, 1), (2, 0)]"
    by (simp add: Unfinished_filter_def Let_def is_not_complete_def get_where_batch_count_def
        BenchmarkTask_def)
qed

section \<open>Task generator: source ids\<close>

lemma foi_card: "first_occurrence_id xs s = card (set (takeWhile (\<lambda>x. x \<noteq> s) xs))"
  by (simp add: first_occurrence_id_def length_remdups_card_conv)

lemma foi_append_in: "s \<in> set xs \<Longrightarrow> first_occurrence_id (xs @ ys) s = first_occurrence_id xs s"
  by (simp add: first_occurrence_id_def takeWhile_append1)

lemma foi_append_notin:
  "s \<notin> set xs \<Longrightarrow> first_occurrence_id (xs @ s # ys) s = card (set xs)"
proof -
  assume "s \<notin> set xs"
  then have "takeWhile (\<lambda>x. x \<noteq> s) (xs @ s # ys) = xs"
    by (induction xs) auto
  then show ?thesis by (simp add: foi_card)
qed

lemma foi_less: "s \<in> set xs \<Longrightarrow> first_occurrence_id xs s < card (set xs)"
proof -
  assume s: "s \<in> set xs"
  have "set (takeWhile (\<lambda>x. x \<noteq> s) xs) \<subseteq> set xs - {s}"
    using set_takeWhileD by fastforce
  also have "\<dots> \<subset> set xs" using s by auto
  finally show ?thesis
    by (simp add: foi_card psubset_card_mono)
qed

lemma foi_inj:
  "s \<in> set xs \<Longrightarrow> s' \<in> set xs \<Longrightarrow> first_occurrence_id xs s = first_occurrence_id xs s' \<Longrightarrow> s = s'"
proof (induction xs rule: rev_induct)
  case Nil
  then show ?case by simp
next
  case (snoc x xs)
  have new: "first_occurrence_id (xs @ [x]) x = card (set xs)" if "x \<notin> set xs"
    using foi_append_notin [OF that, of "[]"] by simp
  show ?case
  proof (cases "s \<in> set xs")
    case True
    note s = this
    show ?thesis
    proof (cases "s' \<in> set xs")
      case True
      with s snoc show ?thesis by (simp add: foi_append_in)
    next
      case False
      then have "s' = x" "x \<notin> set xs" using snoc.prems by auto
      with s snoc.prems new foi_less [OF s] show ?thesis by (simp add: foi_append_in)
    qed
  next
    case False
    then have sx: "s = x" "x \<notin> set xs" using snoc.prems by auto
    show ?thesis
    proof (cases "s' \<in> set xs")
      case True
      with sx snoc.prems new foi_less [OF True] show ?thesis by (simp add: foi_append_in)
    next
      case False
      then show ?thesis using sx snoc.prems by auto
    qed
  qed
qed

lemma foi_image: "first_occurrence_id xs ` set xs = {0..<card (set xs)}"
proof (rule card_subset_eq)
  show "finite {0..<card (set xs)}" by simp
  show "first_occurrence_id xs ` set xs \<subseteq> {0..<card (set xs)}"
    using foi_less by auto
  have "inj_on (first_occurrence_id xs) (set xs)"
    by (rule inj_onI) (rule foi_inj)
  then show "card (first_occurrence_id xs ` set xs) = card {0..<card (set xs)}"
    by (simp add: card_image)
qed

lemma getitem_represents:
  assumes "represents d seen"
  shows "fst (getitem d s) = first_occurrence_id (seen @ [s]) s
         \<and> represents (snd (getitem d s)) (seen @ [s])"
proof (cases "s \<in> set seen")
  case True
  then have "getitem d s = (first_occurrence_id seen s, d)"
    using assms by (simp add: getitem_def represents_def)
  moreover have "represents d (seen @ [s])"
    using assms True by (auto simp: represents_def foi_append_in insert_absorb)
  ultimately show ?thesis using True by (simp add: foi_append_in)
next
  case False
  have new: "first_occurrence_id (seen @ [s]) s = card (set seen)"
    using foi_append_notin [OF False, of "[]"] by simp
  have g: "getitem d s = (card (set seen), \<lparr>entries = (entries d)(s \<mapsto> card (set seen)), counter = card (set seen) + 1\<rparr>)"
    using assms False by (simp add: getitem_def represents_def)
  have "represents \<lparr>entries = (entries d)(s \<mapsto> card (set seen)), counter = card (set seen) + 1\<rparr> (seen @ [s])"
    using assms False new by (auto simp: represents_def foi_append_in)
  then show ?thesis using g new by simp
qed

lemma read_loop_src_id:
  "represents d seen \<Longrightarrow>
   map src_id (read_loop nr seed d a ps)
     = map (first_occurrence_id (seen @ map (\<lambda>p. pipe_source (snd (fst p))) ps))
           (map (\<lambda>p. pipe_source (snd (fst p))) ps)"
proof (induction ps arbitrary: d a seen)
  case Nil
  show ?case by simp
next
  case (Cons p ps)
  obtain i s j l where p: "p = ((i, s), (j, l))" by (metis surj_pair)
  let ?src = "pipe_source s"
  obtain sid d' where g: "getitem d ?src = (sid, d')" by (metis surj_pair)
  from getitem_represents [OF Cons.prems, of ?src] g
  have sid: "sid = first_occurrence_id (seen @ [?src]) ?src" and rep: "represents d' (seen @ [?src])"
    by simp_all
  have IH: "map src_id (read_loop nr seed d' (Suc a) ps)
     = map (first_occurrence_id ((seen @ [?src]) @ map (\<lambda>p. pipe_source (snd (fst p))) ps))
           (map (\<lambda>p. pipe_source (snd (fst p))) ps)"
    by (rule Cons.IH [OF rep])
  have "first_occurrence_id (seen @ [?src]) ?src
        = first_occurrence_id ((seen @ [?src]) @ map (\<lambda>p. pipe_source (snd (fst p))) ps) ?src"
    by (rule foi_append_in [symmetric]) simp
  then show ?case
    using IH g sid by (simp add: p BenchmarkTask_def Let_def pipe_source_def)
qed

lemma represents_empty: "represents \<lparr>entries = Map.empty, counter = 0\<rparr> []"
  by (simp add: represents_def)

lemma source_pipe: "source (simulation t) = pipe_source (pipe (simulation t))"
  by (simp add: pipe_source_def)

lemma Tasks_read_sources:
  "map (\<lambda>t. source (simulation t)) (Tasks_read nr sims lrns seed)
     = map (\<lambda>p. pipe_source (snd (fst p))) (List.product (List.enumerate 0 sims) (List.enumerate 0 lrns))"
proof -
  have "map (\<lambda>t. source (simulation t)) (Tasks_read nr sims lrns seed)
      = map (\<lambda>p. pipe_source (snd (fst p)))
          (map (\<lambda>t. ((sim_id t, pipe (simulation t)), (lrn_id t, inner (learner t)))) (Tasks_read nr sims lrns seed))"
    by (simp add: comp_def pipe_source_def)
  then show ?thesis by (simp only: Tasks_read_def read_loop_fields)
qed

lemma Tasks_read_src_id:
  "map src_id (Tasks_read nr sims lrns seed)
     = map (first_occurrence_id (map (\<lambda>t. source (simulation t)) (Tasks_read nr sims lrns seed)))
           (map (\<lambda>t. source (simulation t)) (Tasks_read nr sims lrns seed))"
  unfolding Tasks_read_sources
  unfolding Tasks_read_def
  using read_loop_src_id [OF represents_empty] by simp



text \<open>
  Claim C4. Within one reading, the source id of every task is the number of distinct
  sources met before the first occurrence of its source in the cross product, so the ids
  are 0, 1, 2, ... in first-occurrence order; two tasks have the same source id exactly
  when their simulations wrap the same source object, whatever their filters.
\<close>

theorem Tasks_read_source_ids:
  "map src_id (Tasks_read nr sims lrns seed)
     = map (first_occurrence_id (map (\<lambda>t. source (simulation t)) (Tasks_read nr sims lrns seed)))
           (map (\<lambda>t. source (simulation t)) (Tasks_read nr sims lrns seed))
   \<and> src_id ` set (Tasks_read nr sims lrns seed)
       = {0..<card ((\<lambda>t. source (simulation t)) ` set (Tasks_read nr sims lrns seed))}
   \<and> (\<forall>t \<in> set (Tasks_read nr sims lrns seed). \<forall>u \<in> set (Tasks_read nr sims lrns seed).
         (src_id t = src_id u) = (source (simulation t) = source (simulation u)))"
proof -
  let ?ts = "Tasks_read nr sims lrns seed"
  let ?srcs = "map (\<lambda>t. source (simulation t)) ?ts"
  have ids: "map src_id ?ts = map (first_occurrence_id ?srcs) ?srcs"
    by (rule Tasks_read_src_id)
  have each: "src_id t = first_occurrence_id ?srcs (source (simulation t))" if "t \<in> set ?ts" for t
  proof -
    from that obtain i where i: "i < length ?ts" "?ts ! i = t" by (auto simp: in_set_conv_nth)
    have "map src_id ?ts ! i = map (first_occurrence_id ?srcs) ?srcs ! i"
      by (simp only: ids)
    then show ?thesis using i by simp
  qed
  have img: "src_id ` set ?ts = first_occurrence_id ?srcs ` set ?srcs"
    using each by (auto simp: image_iff)
  have rng: "src_id ` set ?ts = {0..<card ((\<lambda>t. source (simulation t)) ` set ?ts)}"
    using foi_image [of ?srcs] img by simp
  have eq: "(src_id t = src_id u) = (source (simulation t) = source (simulation u))"
    if "t \<in> set ?ts" "u \<in> set ?ts" for t u
  proof
    assume "src_id t = src_id u"
    then have "first_occurrence_id ?srcs (source (simulation t))
             = first_occurrence_id ?srcs (source (simulation u))"
      using each that by simp
    moreover have "source (simulation t) \<in> set ?srcs" "source (simulation u) \<in> set ?srcs"
      using that by auto
    ultimately show "source (simulation t) = source (simulation u)"
      by (rule foi_inj [rotated 2])
  next
    assume "source (simulation t) = source (simulation u)"
    then show "src_id t = src_id u" using each that by simp
  qed
  show ?thesis using ids rng eq by blast
qed

theorem Tasks_read_source_ids_witness:
  "map (\<lambda>t. source (simulation t)) example_tasks = [7, 9, 7]
   \<and> map src_id example_tasks = [0, 1, 0]
   \<and> example_tasks ! 0 \<in> set example_tasks
   \<and> example_tasks ! 1 \<in> set example_tasks
   \<and> example_tasks ! 2 \<in> set example_tasks
   \<and> src_id (example_tasks ! 0) = src_id (example_tasks ! 2)
   \<and> src_id (example_tasks ! 0) \<noteq> src_id (example_tasks ! 1)"
proof -
  note T = Tasks_read_source_ids [of "\<lambda>seed. first_choice"
        "[SourceFilters 7 1, PlainSource 9, SourceFilters 7 2]" "[fixed_learner [1/2, 1/2]]" None,
        folded example_tasks_def]
  have srcs: "map (\<lambda>t. source (simulation t)) example_tasks = [7, 9, 7]"
    by (simp add: example_tasks_def Tasks_read_def BenchmarkTask_def getitem_def Let_def)
  have len: "length example_tasks = 3"
    by (simp add: example_tasks_def Tasks_read_length)
  have m: "example_tasks ! 0 \<in> set example_tasks" "example_tasks ! 1 \<in> set example_tasks"
    "example_tasks ! 2 \<in> set example_tasks"
    by (simp_all add: len)
  have "map (\<lambda>t. source (simulation t)) example_tasks ! 0 = 7"
    "map (\<lambda>t. source (simulation t)) example_tasks ! 1 = 9"
    "map (\<lambda>t. source (simulation t)) example_tasks ! 2 = 7"
    by (simp_all only: srcs) simp_all
  then have s: "source (simulation (example_tasks ! 0)) = 7"
    "source (simulation (example_tasks ! 1)) = 9" "source (simulation (example_tasks ! 2)) = 7"
    by (simp_all add: len del: source.simps)
  have "map src_id example_tasks = map (first_occurrence_id [7, 9, 7]) [7, 9, 7]"
    using T unfolding srcs by blast
  then have ids: "map src_id example_tasks = [0, 1, 0]"
    by (simp add: first_occurrence_id_def)
  have "(src_id (example_tasks ! 0) = src_id (example_tasks ! 2))
      = (source (simulation (example_tasks ! 0)) = source (simulation (example_tasks ! 2)))"
    using T m by blast
  then have e02: "src_id (example_tasks ! 0) = src_id (example_tasks ! 2)"
    by (simp only: s)
  have "(src_id (example_tasks ! 0) = src_id (example_tasks ! 1))
      = (source (simulation (example_tasks ! 0)) = source (simulation (example_tasks ! 1)))"
    using T m by blast
  then have e01: "src_id (example_tasks ! 0) \<noteq> src_id (example_tasks ! 1)"
    using s by (simp del: source.simps)
  show ?thesis using srcs ids m e02 e01 by blast
qed

section \<open>The online loop on one batch\<close>

lemma choose_loop_success:
  "choose_loop L batch ks cs as ps = (Inr (ks', cs', as', ps'), L1, tr) \<Longrightarrow>
   \<exists>aps. choose_each L batch = (Some aps, L1) \<and> length aps = length batch
      \<and> ks' = ks @ map ikey batch \<and> cs' = cs @ map icontext batch
      \<and> as' = as @ map fst aps \<and> ps' = ps @ map snd aps
      \<and> tr = map choose_call batch"
proof (induction batch arbitrary: L ks cs as ps tr)
  case Nil
  then show ?case by simp
next
  case (Cons i batch)
  from Cons.prems obtain a p L' where
    c: "choose_action L (ikey i) (icontext i) (iactions i) = (Inr (a, p), L')"
    by (auto split: prod.splits sum.splits)
  from Cons.prems c obtain tr' where
    r: "choose_loop L' batch (ks @ [ikey i]) (cs @ [icontext i]) (as @ [a]) (ps @ [p])
          = (Inr (ks', cs', as', ps'), L1, tr')"
    and tr: "tr = EvChoose (ikey i) (icontext i) (iactions i) # tr'"
    by (auto split: prod.splits)
  from Cons.IH [OF r] obtain aps where
    IH: "choose_each L' batch = (Some aps, L1)" "length aps = length batch"
      "ks' = (ks @ [ikey i]) @ map ikey batch" "cs' = (cs @ [icontext i]) @ map icontext batch"
      "as' = (as @ [a]) @ map fst aps" "ps' = (ps @ [p]) @ map snd aps"
      "tr' = map choose_call batch"
    by blast
  show ?case
    by (rule exI [of _ "(a, p) # aps"]) (simp add: c IH tr choose_call_def)
qed

lemma learn_loop_success:
  "learn_loop L qs = (None, L2, tr) \<Longrightarrow> tr = map learn_call qs"
proof (induction qs arbitrary: L tr)
  case Nil
  then show ?case by simp
next
  case (Cons q qs)
  obtain k c a r p where q: "q = (k, c, a, r, p)" by (metis surj_pair)
  from Cons.prems obtain L' where l: "learn L k c a r p = (None, L')"
    by (auto simp: q split: prod.splits option.splits)
  from Cons.prems l obtain tr' where
    r: "learn_loop L' qs = (None, L2, tr')" and tr: "tr = EvLearn k c a r p # tr'"
    by (auto simp: q split: prod.splits)
  from Cons.IH [OF r] show ?case by (simp add: q tr learn_call_def)
qed

lemma process_batch_success:
  assumes "process_batch batch L rwd = (Inr m, L', tr)"
  shows "\<exists>aps L1 rewards.
      choose_each L batch = (Some aps, L1) \<and> length aps = length batch
    \<and> rwd (zip (map ikey batch) (zip (map icontext batch) (map fst aps))) = Inr rewards
    \<and> learn_loop L1 (zip (map ikey batch) (zip (map icontext batch)
          (zip (map fst aps) (zip rewards (map snd aps))))) = (None, L', drop (Suc (length batch)) tr)
    \<and> tr = map choose_call batch
          @ [EvObserve (zip (map ikey batch) (zip (map icontext batch) (map fst aps)))]
          @ map learn_call (zip (map ikey batch) (zip (map icontext batch)
              (zip (map fst aps) (zip rewards (map snd aps)))))
    \<and> mean rewards = Inr (to_double (sum_list rewards / of_nat (length rewards)))
    \<and> rewards \<noteq> []
    \<and> m = py_round (to_double (sum_list rewards / of_nat (length rewards))) 5"
proof -
  from assms obtain ks cs as ps L1 tr1 where
    c: "choose_loop L batch [] [] [] [] = (Inr (ks, cs, as, ps), L1, tr1)"
    unfolding process_batch_def by (auto split: prod.splits sum.splits)
  from choose_loop_success [OF c] obtain aps where
    a: "choose_each L batch = (Some aps, L1)" "length aps = length batch"
      "ks = map ikey batch" "cs = map icontext batch" "as = map fst aps" "ps = map snd aps"
      "tr1 = map choose_call batch"
    by auto
  from assms c obtain rewards where rw: "rwd (zip ks (zip cs as)) = Inr rewards"
    unfolding process_batch_def by (auto simp: Let_def split: prod.splits sum.splits)
  from assms c rw obtain tr2 where
    l: "learn_loop L1 (zip ks (zip cs (zip as (zip rewards ps)))) = (None, L', tr2)"
    and tr: "tr = tr1 @ [EvObserve (zip ks (zip cs as))] @ tr2"
    and m: "mean rewards = Inr (to_double (sum_list rewards / of_nat (length rewards)))"
       "rewards \<noteq> []"
       "m = py_round (to_double (sum_list rewards / of_nat (length rewards))) 5"
    unfolding process_batch_def
    by (auto simp: Let_def mean_def split: prod.splits sum.splits option.splits if_splits)
  have tr2: "tr2 = map learn_call (zip ks (zip cs (zip as (zip rewards ps))))"
    by (rule learn_loop_success [OF l])
  have d: "drop (Suc (length batch)) tr = tr2"
    by (simp add: tr a)
  show ?thesis
    apply (rule exI [of _ aps], rule exI [of _ L1], rule exI [of _ rewards])
    using a rw l tr tr2 m d by simp
qed


lemma choose_each_length: "choose_each L batch = (Some aps, L1) \<Longrightarrow> length aps = length batch"
  by (induction batch arbitrary: L aps)
     (auto split: prod.splits sum.splits option.splits)

lemma choose_loop_forward:
  "choose_each L batch = (Some aps, L1) \<Longrightarrow>
   choose_loop L batch ks cs as ps
     = (Inr (ks @ map ikey batch, cs @ map icontext batch, as @ map fst aps, ps @ map snd aps),
        L1, map choose_call batch)"
proof (induction batch arbitrary: L ks cs as ps aps)
  case Nil
  then show ?case by simp
next
  case (Cons i batch)
  from Cons.prems obtain a p L' aps' where
    c: "choose_action L (ikey i) (icontext i) (iactions i) = (Inr (a, p), L')"
    and e: "choose_each L' batch = (Some aps', L1)" and aps: "aps = (a, p) # aps'"
    by (auto split: prod.splits sum.splits option.splits)
  show ?case
    by (simp add: c aps choose_call_def
        Cons.IH [OF e, of "ks @ [ikey i]" "cs @ [icontext i]" "as @ [a]" "ps @ [p]"])
qed

lemma learn_loop_forward:
  "fst (learn_loop L qs) = None \<Longrightarrow> snd (snd (learn_loop L qs)) = map learn_call qs"
proof -
  assume n: "fst (learn_loop L qs) = None"
  obtain x L2 tr where r: "learn_loop L qs = (x, L2, tr)" by (metis surj_pair)
  with n have "learn_loop L qs = (None, L2, tr)" by simp
  from learn_loop_success [OF this] r show ?thesis by simp
qed

lemma process_batch_forward:
  assumes "choose_each L batch = (Some aps, L1)"
    and "rwd (zip (map ikey batch) (zip (map icontext batch) (map fst aps))) = Inr rewards"
    and "fst (learn_loop L1 (zip (map ikey batch) (zip (map icontext batch)
            (zip (map fst aps) (zip rewards (map snd aps)))))) = None"
  shows "fst (process_batch batch L rwd)
           = (if rewards = [] then Inl StatisticsError
              else Inr (py_round (to_double (sum_list rewards / of_nat (length rewards))) 5))"
    and "snd (snd (process_batch batch L rwd))
           = map choose_call batch
             @ [EvObserve (zip (map ikey batch) (zip (map icontext batch) (map fst aps)))]
             @ map learn_call (zip (map ikey batch) (zip (map icontext batch)
                 (zip (map fst aps) (zip rewards (map snd aps)))))"
proof -
  let ?qs = "zip (map ikey batch) (zip (map icontext batch)
                 (zip (map fst aps) (zip rewards (map snd aps))))"
  have c: "choose_loop L batch [] [] [] []
      = (Inr (map ikey batch, map icontext batch, map fst aps, map snd aps), L1, map choose_call batch)"
    using choose_loop_forward [OF assms(1), of "[]" "[]" "[]" "[]"] by simp
  obtain x L2 tr2 where l: "learn_loop L1 ?qs = (x, L2, tr2)" by (metis surj_pair)
  with assms(3) have x: "x = None" by simp
  have tr2: "tr2 = map learn_call ?qs"
    using learn_loop_forward [OF assms(3)] l by simp
  show "fst (process_batch batch L rwd)
           = (if rewards = [] then Inl StatisticsError
              else Inr (py_round (to_double (sum_list rewards / of_nat (length rewards))) 5))"
    by (simp add: process_batch_def c assms(2) l x mean_def)
  show "snd (snd (process_batch batch L rwd))
           = map choose_call batch
             @ [EvObserve (zip (map ikey batch) (zip (map icontext batch) (map fst aps)))]
             @ map learn_call ?qs"
    by (simp add: process_batch_def c assms(2) l x tr2 mean_def)
qed

text \<open>Whatever happens, the calls of a batch are some chooses, then at most one observe, then some learns.\<close>

lemma choose_loop_trace:
  "\<exists>n\<le>length batch. snd (snd (choose_loop L batch ks cs as ps)) = map choose_call (take n batch)
     \<and> ((\<exists>q. fst (choose_loop L batch ks cs as ps) = Inr q) \<longrightarrow> n = length batch)"
proof (induction batch arbitrary: L ks cs as ps)
  case Nil
  show ?case by simp
next
  case (Cons i batch)
  obtain r L' where c: "choose_action L (ikey i) (icontext i) (iactions i) = (r, L')"
    by (metis surj_pair)
  show ?case
  proof (cases r)
    case (Inl e)
    show ?thesis
      by (rule exI [of _ "Suc 0"]) (simp add: c Inl choose_call_def)
  next
    case (Inr ap)
    obtain a p where ap: "ap = (a, p)" by (metis surj_pair)
    from Cons.IH [of L' "ks @ [ikey i]" "cs @ [icontext i]" "as @ [a]" "ps @ [p]"]
    obtain n where n: "n \<le> length batch"
      "snd (snd (choose_loop L' batch (ks @ [ikey i]) (cs @ [icontext i]) (as @ [a]) (ps @ [p])))
         = map choose_call (take n batch)"
      "(\<exists>q. fst (choose_loop L' batch (ks @ [ikey i]) (cs @ [icontext i]) (as @ [a]) (ps @ [p])) = Inr q)
         \<longrightarrow> n = length batch"
      by blast
    obtain r' L'' tr' where
      rec: "choose_loop L' batch (ks @ [ikey i]) (cs @ [icontext i]) (as @ [a]) (ps @ [p]) = (r', L'', tr')"
      by (metis surj_pair)
    have step: "choose_loop L (i # batch) ks cs as ps = (r', L'', choose_call i # tr')"
      by (simp add: c Inr ap rec choose_call_def)
    show ?thesis
      apply (rule exI [of _ "Suc n"])
      using n by (simp add: step rec del: choose_loop.simps)
  qed
qed

lemma learn_loop_trace:
  "\<exists>k\<le>length qs. snd (snd (learn_loop L qs)) = map learn_call (take k qs)"
proof (induction qs arbitrary: L)
  case Nil
  show ?case by simp
next
  case (Cons q qs)
  obtain k c a r p where q: "q = (k, c, a, r, p)" by (metis surj_pair)
  obtain x L' where l: "learn L k c a r p = (x, L')" by (metis surj_pair)
  show ?case
  proof (cases x)
    case (Some e)
    show ?thesis by (rule exI [of _ "Suc 0"]) (simp add: q l Some learn_call_def)
  next
    case None
    from Cons.IH [of L'] obtain j where
      j: "j \<le> length qs" "snd (snd (learn_loop L' qs)) = map learn_call (take j qs)" by blast
    obtain x' L'' tr' where rec: "learn_loop L' qs = (x', L'', tr')" by (metis surj_pair)
    have step: "learn_loop L (q # qs) = (x', L'', learn_call q # tr')"
      by (simp add: q l None rec learn_call_def)
    show ?thesis
      apply (rule exI [of _ "Suc j"])
      using j by (simp add: step rec del: learn_loop.simps)
  qed
qed

lemma to_double_one: "to_double 1 = 1"
  by code_simp

lemmas eval_defs = process_batch_def choose_action_def predict_def learn_def set_lstate_def
  fixed_learner_def first_choice_def example_learner_def example_batch_def example_batch3_def
  mean_def py_round_def round_half_even_def to_double_one Let_def init_def

lemma process_batch_trace_after_choose:
  assumes "choose_loop L batch [] [] [] [] = (Inr (ks, cs, as, ps), L1, tr1)"
    and "rwd (zip ks (zip cs as)) = Inr rewards"
    and "learn_loop L1 (zip ks (zip cs (zip as (zip rewards ps)))) = (x, L2, tr2)"
  shows "snd (snd (process_batch batch L rwd)) = tr1 @ [EvObserve (zip ks (zip cs as))] @ tr2"
proof (cases x)
  case None
  show ?thesis
    by (cases "mean rewards") (simp_all add: process_batch_def assms None Let_def)
next
  case (Some e)
  show ?thesis
    by (simp add: process_batch_def assms Some Let_def)
qed

lemma process_batch_trace:
  "\<exists>n triples qs. n \<le> length batch \<and> length triples = length batch \<and> length qs \<le> length batch
     \<and> (snd (snd (process_batch batch L rwd)) = map choose_call (take n batch)
        \<or> snd (snd (process_batch batch L rwd))
            = map choose_call batch @ [EvObserve triples] @ map learn_call qs)"
proof -
  obtain r L1 tr1 where c: "choose_loop L batch [] [] [] [] = (r, L1, tr1)" by (metis surj_pair)
  from choose_loop_trace [of batch L "[]" "[]" "[]" "[]"] c obtain n where
    n: "n \<le> length batch" "tr1 = map choose_call (take n batch)"
    by auto
  show ?thesis
  proof (cases r)
    case (Inl e)
    have t: "snd (snd (process_batch batch L rwd)) = map choose_call (take n batch)"
      by (simp add: process_batch_def c Inl n)
    have "n \<le> length batch \<and> length (map (\<lambda>i. (ikey i, icontext i, IntV 0)) batch) = length batch
        \<and> length ([] :: (key \<times> ctx \<times> action \<times> rat \<times> rat) list) \<le> length batch
        \<and> (snd (snd (process_batch batch L rwd)) = map choose_call (take n batch)
        \<or> snd (snd (process_batch batch L rwd))
            = map choose_call batch @ [EvObserve (map (\<lambda>i. (ikey i, icontext i, IntV 0)) batch)]
               @ map learn_call [])"
      using n(1) t by simp
    then show ?thesis by blast
  next
    case (Inr q)
    obtain ks cs as ps where q: "q = (ks, cs, as, ps)" by (metis surj_pair)
    have c': "choose_loop L batch [] [] [] [] = (Inr (ks, cs, as, ps), L1, tr1)"
      using c Inr q by simp
    from choose_loop_success [OF c'] obtain aps where
      a: "length aps = length batch" "ks = map ikey batch" "cs = map icontext batch"
         "as = map fst aps" "ps = map snd aps" and tr1: "tr1 = map choose_call batch"
      by auto
    let ?triples = "zip ks (zip cs as)"
    have lt: "length ?triples = length batch" by (simp add: a)
    show ?thesis
    proof (cases "rwd ?triples")
      case (Inl e)
      have t: "snd (snd (process_batch batch L rwd)) = map choose_call batch @ [EvObserve ?triples] @ map learn_call []"
        by (simp add: process_batch_def c' Inl tr1 Let_def)
      have "0 \<le> length batch \<and> length ?triples = length batch
        \<and> length ([] :: (key \<times> ctx \<times> action \<times> rat \<times> rat) list) \<le> length batch
        \<and> (snd (snd (process_batch batch L rwd)) = map choose_call (take 0 batch)
        \<or> snd (snd (process_batch batch L rwd))
            = map choose_call batch @ [EvObserve ?triples] @ map learn_call [])"
        using lt t by simp
      then show ?thesis by blast
    next
      case (Inr rewards)
      let ?qs = "zip ks (zip cs (zip as (zip rewards ps)))"
      obtain x L2 tr2 where l: "learn_loop L1 ?qs = (x, L2, tr2)" by (metis surj_pair)
      from learn_loop_trace [of ?qs L1] l obtain k where
        k: "k \<le> length ?qs" "tr2 = map learn_call (take k ?qs)" by auto
      have t: "snd (snd (process_batch batch L rwd))
          = map choose_call batch @ [EvObserve ?triples] @ map learn_call (take k ?qs)"
        using process_batch_trace_after_choose [where rwd = rwd, OF c' Inr l] by (simp only: tr1 k(2))
      have lq: "length (take k ?qs) \<le> length batch" by (simp add: a)
      have "0 \<le> length batch \<and> length ?triples = length batch
        \<and> length (take k ?qs) \<le> length batch
        \<and> (snd (snd (process_batch batch L rwd)) = map choose_call (take 0 batch)
        \<or> snd (snd (process_batch batch L rwd))
            = map choose_call batch @ [EvObserve ?triples] @ map learn_call (take k ?qs))"
        using lt lq t by blast
      then show ?thesis by blast
    qed
  qed
qed

text \<open>
  Claim C1. In every run of the online loop on a batch of \<open>N\<close> interactions the calls are:
  chooses of the interactions in batch order, then (only after all \<open>N\<close> chooses) at most
  one request for rewards with \<open>N\<close> triples, then at most \<open>N\<close> learns. When every
  \<open>choose\<close> returns, the reward function returns one reward per triple and no \<open>learn\<close>
  raises, the calls are exactly: \<open>N\<close> chooses, one request for the rewards of the \<open>N\<close>
  (key, context, chosen action) triples, and \<open>N\<close> learns, the i-th with the key, context,
  chosen action, i-th reward and probability of the i-th choose.
\<close>

theorem process_batch_protocol:
  "(\<exists>n triples qs. n \<le> length batch \<and> length triples = length batch \<and> length qs \<le> length batch
      \<and> (snd (snd (process_batch batch L rwd)) = map choose_call (take n batch)
         \<or> snd (snd (process_batch batch L rwd))
             = map choose_call batch @ [EvObserve triples] @ map learn_call qs))
   \<and> (choose_each L batch = (Some aps, L1)
      \<longrightarrow> rwd (zip (map ikey batch) (zip (map icontext batch) (map fst aps))) = Inr rewards
      \<longrightarrow> length rewards = length batch
      \<longrightarrow> fst (learn_loop L1 (zip (map ikey batch) (zip (map icontext batch)
                 (zip (map fst aps) (zip rewards (map snd aps)))))) = None
      \<longrightarrow> snd (snd (process_batch batch L rwd))
            = map choose_call batch
              @ [EvObserve (zip (map ikey batch) (zip (map icontext batch) (map fst aps)))]
              @ map learn_call (zip (map ikey batch) (zip (map icontext batch)
                  (zip (map fst aps) (zip rewards (map snd aps)))))
          \<and> length (map choose_call batch) = length batch
          \<and> length (zip (map ikey batch) (zip (map icontext batch) (map fst aps))) = length batch
          \<and> length (map learn_call (zip (map ikey batch) (zip (map icontext batch)
                  (zip (map fst aps) (zip rewards (map snd aps)))))) = length batch)"
proof (intro conjI impI)
  show "\<exists>n triples qs. n \<le> length batch \<and> length triples = length batch \<and> length qs \<le> length batch
      \<and> (snd (snd (process_batch batch L rwd)) = map choose_call (take n batch)
         \<or> snd (snd (process_batch batch L rwd))
             = map choose_call batch @ [EvObserve triples] @ map learn_call qs)"
    by (rule process_batch_trace)
next
  assume h: "choose_each L batch = (Some aps, L1)"
    "rwd (zip (map ikey batch) (zip (map icontext batch) (map fst aps))) = Inr rewards"
    "length rewards = length batch"
    "fst (learn_loop L1 (zip (map ikey batch) (zip (map icontext batch)
                 (zip (map fst aps) (zip rewards (map snd aps)))))) = None"
  have la: "length aps = length batch" by (rule choose_each_length [OF h(1)])
  show "snd (snd (process_batch batch L rwd))
            = map choose_call batch
              @ [EvObserve (zip (map ikey batch) (zip (map icontext batch) (map fst aps)))]
              @ map learn_call (zip (map ikey batch) (zip (map icontext batch)
                  (zip (map fst aps) (zip rewards (map snd aps)))))"
    using h(1,2,4) by (rule process_batch_forward(2))
  show "length (map choose_call batch) = length batch" by simp
  show "length (zip (map ikey batch) (zip (map icontext batch) (map fst aps))) = length batch"
    by (simp add: la)
  show "length (map learn_call (zip (map ikey batch) (zip (map icontext batch)
                  (zip (map fst aps) (zip rewards (map snd aps)))))) = length batch"
    by (simp add: la h(3))
qed

theorem process_batch_protocol_witness:
  "choose_each (example_learner [1/2, 1/2]) example_batch
     = (Some [(IntV 0, 1/2), (IntV 0, 1/2)], example_learner [1/2, 1/2])
   \<and> snd (snd (process_batch example_batch (example_learner [1/2, 1/2]) (\<lambda>ts. Inr (map (\<lambda>t. 1) ts))))
     = [EvChoose 0 (TupleContext [IntV 1, IntV 2, IntV 3]) [IntV 0, IntV 1],
        EvChoose 1 NoContext [IntV 0, IntV 1],
        EvObserve [(0, TupleContext [IntV 1, IntV 2, IntV 3], IntV 0), (1, NoContext, IntV 0)],
        EvLearn 0 (TupleContext [IntV 1, IntV 2, IntV 3]) (IntV 0) 1 (1/2),
        EvLearn 1 NoContext (IntV 0) 1 (1/2)]"
proof -
  let ?L = "example_learner [1/2, 1/2]"
  let ?rwd = "\<lambda>ts :: (key \<times> ctx \<times> action) list. (Inr (map (\<lambda>t. 1) ts) :: exn + rat list)"
  have c: "choose_each ?L example_batch = (Some [(IntV 0, 1/2), (IntV 0, 1/2)], ?L)"
    by (simp add: eval_defs)
  have r: "?rwd (zip (map ikey example_batch) (zip (map icontext example_batch)
             (map fst [(IntV 0, 1/2 :: rat), (IntV 0, 1/2)]))) = Inr [1, 1]"
    by (simp add: example_batch_def)
  have n: "length [1, 1 :: rat] = length example_batch"
    by (simp add: example_batch_def)
  have l: "fst (learn_loop ?L (zip (map ikey example_batch) (zip (map icontext example_batch)
             (zip (map fst [(IntV 0, 1/2 :: rat), (IntV 0, 1/2)])
                (zip [1, 1] (map snd [(IntV 0, 1/2 :: rat), (IntV 0, 1/2)])))))) = None"
    by (simp add: eval_defs)
  from process_batch_protocol [of example_batch ?L ?rwd "[(IntV 0, 1/2), (IntV 0, 1/2)]" ?L "[1, 1]"]
  have "snd (snd (process_batch example_batch ?L ?rwd))
            = map choose_call example_batch
              @ [EvObserve (zip (map ikey example_batch) (zip (map icontext example_batch)
                   (map fst [(IntV 0, 1/2 :: rat), (IntV 0, 1/2)])))]
              @ map learn_call (zip (map ikey example_batch) (zip (map icontext example_batch)
                  (zip (map fst [(IntV 0, 1/2 :: rat), (IntV 0, 1/2)])
                     (zip [1, 1] (map snd [(IntV 0, 1/2 :: rat), (IntV 0, 1/2)])))))"
    using c r n l by blast
  then show ?thesis using c
    by (simp add: example_batch_def choose_call_def learn_call_def)
qed

section \<open>The mean reward of a batch\<close>

lemma round_half_even_near: "\<bar>of_int (round_half_even y) - y\<bar> \<le> 1 / 2"
proof -
  have "of_int \<lfloor>y\<rfloor> \<le> y" "y < of_int \<lfloor>y\<rfloor> + 1" by linarith+
  then show ?thesis
    unfolding round_half_even_def Let_def by (auto simp: abs_le_iff)
qed

lemma round_half_even_tie: "y - of_int \<lfloor>y\<rfloor> = 1 / 2 \<Longrightarrow> even (round_half_even y)"
  by (simp add: round_half_even_def Let_def)

lemma bit_length_0: "bit_length 0 = 0"
  by (simp add: bit_length.simps)

lemma bit_length_bounds: "0 < n \<Longrightarrow> 2 ^ (bit_length n - 1) \<le> n \<and> n < 2 ^ bit_length n"
proof (induction n rule: bit_length.induct)
  case (1 n)
  show ?case
  proof (cases "n div 2 = 0")
    case True
    with "1.prems" have n: "n = Suc 0" by (simp add: div_eq_0_iff)
    have "bit_length (Suc 0) = Suc 0"
      by (simp add: bit_length.simps [of "Suc 0"] bit_length_0)
    then show ?thesis by (simp add: n)
  next
    case False
    then have p: "0 < n div 2" by simp
    from "1.IH" [OF _ p] "1.prems" have IH:
      "2 ^ (bit_length (n div 2) - 1) \<le> n div 2" "n div 2 < 2 ^ bit_length (n div 2)"
      by simp_all
    have b: "bit_length n = Suc (bit_length (n div 2))"
      using "1.prems" by (simp add: bit_length.simps [of n])
    have pos: "0 < bit_length (n div 2)"
      using p by (simp add: bit_length.simps [of "n div 2"])
    then have e: "2 ^ (bit_length (n div 2)) = (2 :: nat) * 2 ^ (bit_length (n div 2) - 1)"
      by (cases "bit_length (n div 2)") simp_all
    have "2 ^ bit_length (n div 2) \<le> 2 * (n div 2)" using IH(1) e by simp
    also have "\<dots> \<le> n" by simp
    finally have l: "2 ^ (bit_length n - 1) \<le> n" by (simp add: b)
    have "n < 2 * (n div 2) + 2" by arith
    also have "\<dots> \<le> 2 * 2 ^ bit_length (n div 2)" using IH(2) by simp
    finally have u: "n < 2 ^ bit_length n" by (simp add: b)
    from l u show ?thesis by simp
  qed
qed

lemma pow2_powi: "pow2 e = 2 powi e"
  by (simp add: pow2_def power_int_def power_one_over inverse_eq_divide)

lemma pow2_pos: "0 < pow2 e"
  by (simp add: pow2_powi)

lemma pow2_Suc: "pow2 (e + 1) = 2 * pow2 e"
  by (simp add: pow2_powi power_int_add)

lemma float_exponent_bounds:
  assumes "x \<noteq> 0"
  shows "pow2 (float_exponent x) \<le> \<bar>x\<bar> \<and> \<bar>x\<bar> < pow2 (float_exponent x + 1)"
proof (cases "1 \<le> \<bar>x\<bar>")
  case True
  let ?n = "nat \<lfloor>\<bar>x\<bar>\<rfloor>"
  have f: "1 \<le> \<lfloor>\<bar>x\<bar>\<rfloor>" using True by linarith
  then have n: "0 < ?n" by simp
  have nx: "of_nat ?n \<le> \<bar>x\<bar>" "\<bar>x\<bar> < of_nat ?n + 1"
    using f by (simp_all add: of_nat_nat) linarith+
  from bit_length_bounds [OF n] have b: "2 ^ (bit_length ?n - 1) \<le> ?n" "?n < 2 ^ bit_length ?n"
    by simp_all
  have pos: "0 < bit_length ?n" using n by (simp add: bit_length.simps [of ?n])
  have e: "float_exponent x = int (bit_length ?n - 1)"
    using True pos by (simp add: float_exponent_def)
  have e1: "float_exponent x + 1 = int (bit_length ?n)"
    using e pos by simp
  have "pow2 (float_exponent x) = of_nat (2 ^ (bit_length ?n - 1))"
    by (simp add: e pow2_def)
  also have "\<dots> \<le> of_nat ?n" using b(1) by (simp only: of_nat_le_iff)
  also have "\<dots> \<le> \<bar>x\<bar>" by (rule nx(1))
  finally have l: "pow2 (float_exponent x) \<le> \<bar>x\<bar>" .
  from b(2) have "Suc ?n \<le> 2 ^ bit_length ?n" by (rule Suc_leI)
  then have "(of_nat (Suc ?n) :: rat) \<le> of_nat (2 ^ bit_length ?n)" by (simp only: of_nat_le_iff)
  then have "(of_nat ?n :: rat) + 1 \<le> 2 ^ bit_length ?n" by (simp add: add.commute)
  with nx(2) have "\<bar>x\<bar> < 2 ^ bit_length ?n" by linarith
  then have u: "\<bar>x\<bar> < pow2 (float_exponent x + 1)"
    by (simp add: e1 pow2_def)
  from l u show ?thesis by simp
next
  case False
  let ?y = "1 / \<bar>x\<bar>"
  let ?m = "nat (\<lceil>?y\<rceil> - 1)"
  let ?k = "bit_length ?m"
  have xp: "0 < \<bar>x\<bar>" using assms by simp
  have y1: "1 < ?y" using False xp by simp
  then have c: "2 \<le> \<lceil>?y\<rceil>" by linarith
  then have m: "0 < ?m" by simp
  have my: "of_nat ?m < ?y" "?y \<le> of_nat ?m + 1"
    using c by (simp_all add: of_nat_nat) linarith+
  from bit_length_bounds [OF m] have b: "2 ^ (?k - 1) \<le> ?m" "?m < 2 ^ ?k"
    by simp_all
  have pos: "0 < ?k" using m by (simp add: bit_length.simps [of ?m])
  have e: "float_exponent x = - int ?k"
    using False by (simp add: float_exponent_def)
  from b(2) have "Suc ?m \<le> 2 ^ ?k" by (rule Suc_leI)
  then have "(of_nat (Suc ?m) :: rat) \<le> of_nat (2 ^ ?k)" by (simp only: of_nat_le_iff)
  then have "(of_nat ?m :: rat) + 1 \<le> 2 ^ ?k" by (simp add: add.commute)
  with my(2) have yu: "?y \<le> 2 ^ ?k" by linarith
  have "(of_nat (2 ^ (?k - 1)) :: rat) \<le> of_nat ?m" using b(1) by (simp only: of_nat_le_iff)
  then have "(2 :: rat) ^ (?k - 1) \<le> of_nat ?m" by simp
  with my(1) have yl: "2 ^ (?k - 1) < ?y" by linarith
  have l: "pow2 (float_exponent x) \<le> \<bar>x\<bar>"
  proof -
    have "1 / 2 ^ ?k \<le> \<bar>x\<bar>"
      using yu xp by (simp add: field_simps)
    then show ?thesis using pos by (simp add: e pow2_def)
  qed
  have u: "\<bar>x\<bar> < pow2 (float_exponent x + 1)"
  proof -
    have "\<bar>x\<bar> < 1 / 2 ^ (?k - 1)"
      using yl xp by (simp add: field_simps)
    moreover have "pow2 (float_exponent x + 1) = 1 / 2 ^ (?k - 1)"
    proof (cases "?k = 1")
      case True
      then show ?thesis by (simp add: e pow2_def)
    next
      case False
      with pos have "1 < ?k" by simp
      then have "nat (int ?k - 1) = ?k - 1" "\<not> 0 \<le> - int ?k + 1" by simp_all
      then show ?thesis by (simp add: e pow2_def)
    qed
    ultimately show ?thesis by simp
  qed
  from l u show ?thesis by simp
qed

lemma to_double_near:
  "\<bar>to_double x - x\<bar> \<le> pow2 (max (float_exponent x) (- 1022) - 53)"
proof (cases "x = 0")
  case True
  then show ?thesis using pow2_pos [of "max (float_exponent 0) (- 1022) - 53"]
    by (simp add: to_double_def)
next
  case False
  let ?q = "pow2 (max (float_exponent x) (- 1022) - 52)"
  have q: "0 < ?q" by (rule pow2_pos)
  have t: "to_double x = of_int (round_half_even (x / ?q)) * ?q"
    using False by (simp add: to_double_def Let_def)
  have "to_double x - x = (of_int (round_half_even (x / ?q)) - x / ?q) * ?q"
    using q by (simp add: t field_simps)
  then have "\<bar>to_double x - x\<bar> = \<bar>of_int (round_half_even (x / ?q)) - x / ?q\<bar> * ?q"
    using q by (simp add: abs_mult)
  also have "\<dots> \<le> (1 / 2) * ?q"
    using round_half_even_near [of "x / ?q"] q by (simp add: mult_right_mono)
  also have "\<dots> = pow2 (max (float_exponent x) (- 1022) - 53)"
    using pow2_Suc [of "max (float_exponent x) (- 1022) - 53"] by simp
  finally show ?thesis .
qed

lemma to_double_relative:
  assumes "- 1022 \<le> float_exponent x" "x \<noteq> 0"
  shows "\<bar>to_double x - x\<bar> \<le> \<bar>x\<bar> / 2 ^ 53"
proof -
  have m: "max (float_exponent x) (- 1022) = float_exponent x" using assms(1) by simp
  have "pow2 (float_exponent x - 53) = pow2 (float_exponent x) / 2 ^ 53"
    by (simp add: pow2_powi power_int_diff)
  also have "\<dots> \<le> \<bar>x\<bar> / 2 ^ 53"
    using float_exponent_bounds [OF assms(2)] by (simp add: divide_right_mono)
  finally show ?thesis using to_double_near [of x] by (simp add: m)
qed

lemma py_round_rounded_mean:
  "py_round (to_double (sum_list rs / of_nat (length rs))) 5 = rounded_mean rs"
  by (simp add: py_round_def rounded_mean_def)

lemma observed_append: "observed (tr @ tr') = observed tr @ observed tr'"
  by (induction tr rule: observed.induct) simp_all

lemma observed_choose_calls: "observed (map choose_call batch) = []"
  by (induction batch) (simp_all add: choose_call_def)

lemma observed_learn_calls: "observed (map learn_call qs) = []"
  by (induction qs) (auto simp: learn_call_def)

lemma process_batch_observed:
  assumes "process_batch batch L rwd = (Inr m, L', tr)"
  shows "\<exists>triples rs. observed tr = [triples]
      \<and> map fst triples = map ikey batch \<and> map (\<lambda>q. fst (snd q)) triples = map icontext batch
      \<and> rwd triples = Inr rs \<and> rs \<noteq> [] \<and> m = rounded_mean rs"
proof -
  from process_batch_success [OF assms] obtain aps rs where
    a: "length aps = length batch"
    and r: "rwd (zip (map ikey batch) (zip (map icontext batch) (map fst aps))) = Inr rs" "rs \<noteq> []"
       "m = py_round (to_double (sum_list rs / of_nat (length rs))) 5"
    and tr: "tr = map choose_call batch
          @ [EvObserve (zip (map ikey batch) (zip (map icontext batch) (map fst aps)))]
          @ map learn_call (zip (map ikey batch) (zip (map icontext batch)
              (zip (map fst aps) (zip rs (map snd aps)))))"
    by blast
  let ?triples = "zip (map ikey batch) (zip (map icontext batch) (map fst aps))"
  have o: "observed tr = [?triples]"
    by (simp add: tr observed_append observed_choose_calls observed_learn_calls)
  have k: "map fst ?triples = map ikey batch"
    using a by simp
  have "map snd ?triples = zip (map icontext batch) (map fst aps)"
    using a by simp
  then have "map fst (map snd ?triples) = map icontext batch"
    using a by simp
  then have c: "map (\<lambda>q. fst (snd q)) ?triples = map icontext batch"
    by (simp add: comp_def)
  from o k c r show ?thesis by (simp add: py_round_rounded_mean)
qed

lemma process_batches_success:
  "process_batches L batches rwd = (Inr ms, L', tr) \<Longrightarrow>
   list_all2 (\<lambda>batch triples. map fst triples = map ikey batch
        \<and> map (\<lambda>q. fst (snd q)) triples = map icontext batch) batches (observed tr)
   \<and> list_all2 (\<lambda>triples m. \<exists>rs. rwd triples = Inr rs \<and> rs \<noteq> [] \<and> m = rounded_mean rs)
        (observed tr) ms"
proof (induction batches arbitrary: L ms tr)
  case Nil
  then show ?case by simp
next
  case (Cons b bs)
  from Cons.prems obtain m L1 tr1 where b: "process_batch b L rwd = (Inr m, L1, tr1)"
    by (auto split: prod.splits sum.splits)
  from Cons.prems b obtain ms' tr2 where
    r: "process_batches L1 bs rwd = (Inr ms', L', tr2)" and ms: "ms = m # ms'"
    and tr: "tr = tr1 @ tr2"
    by (auto split: prod.splits sum.splits)
  from process_batch_observed [OF b] obtain triples rs where
    o: "observed tr1 = [triples]" "map fst triples = map ikey b"
       "map (\<lambda>q. fst (snd q)) triples = map icontext b"
       "rwd triples = Inr rs" "rs \<noteq> []" "m = rounded_mean rs"
    by blast
  have e: "\<exists>rs. rwd triples = Inr rs \<and> rs \<noteq> [] \<and> m = rounded_mean rs"
    using o by blast
  from Cons.IH [OF r] e o(1,2,3) show ?case
    by (simp add: ms tr observed_append)
qed

lemma evaluate_success:
  assumes "evaluate s l L batches rwd = (Inr t, L', tr)"
  shows "\<exists>L0 tr'. init L = (None, L0)
     \<and> comprehension (\<lambda>batch. int_median (context_sizes batch)) batches = Inr (t_C t)
     \<and> comprehension (\<lambda>batch. int_median (action_counts batch)) batches = Inr (t_A t)
     \<and> t_N t = map length batches
     \<and> process_batches L0 batches rwd = (Inr (t_reward t), L', tr')
     \<and> t_sim_id t = s \<and> t_lrn_id t = l \<and> tr = EvInit # tr'"
proof -
  obtain x L0 where i: "init L = (x, L0)" by (metis surj_pair)
  with assms have x: "x = None"
    by (cases x) (auto simp: evaluate_def)
  from assms i x obtain cs where
    c: "comprehension (\<lambda>batch. int_median (context_sizes batch)) batches = Inr cs"
    by (cases "comprehension (\<lambda>batch. int_median (context_sizes batch)) batches")
       (auto simp: evaluate_def)
  from assms i x c obtain acs where
    a: "comprehension (\<lambda>batch. int_median (action_counts batch)) batches = Inr acs"
    by (cases "comprehension (\<lambda>batch. int_median (action_counts batch)) batches")
       (auto simp: evaluate_def)
  obtain r L1 tr' where p: "process_batches L0 batches rwd = (r, L1, tr')" by (metis surj_pair)
  from assms i x c a p obtain ms where r: "r = Inr ms"
    by (cases r) (auto simp: evaluate_def Let_def)
  from assms have t: "t = \<lparr>t_sim_id = s, t_lrn_id = l, t_C = cs, t_A = acs,
        t_N = map length batches, t_reward = ms\<rparr>" "L' = L1" "tr = EvInit # tr'"
    by (simp_all add: evaluate_def i x c a p r Let_def)
  show ?thesis
    using i x c a p r t by simp
qed

lemma learn_loop_fixed_learner: "learn_loop (example_learner ps) qs = (None, example_learner ps, map learn_call qs)"
proof (induction qs)
  case Nil
  show ?case by simp
next
  case (Cons q qs)
  obtain k c a r p where q: "q = (k, c, a, r, p)" by (metis surj_pair)
  have l: "learn (example_learner ps) k c a r p = (None, example_learner ps)"
    by (simp add: learn_def set_lstate_def example_learner_def fixed_learner_def)
  show ?case by (simp add: q l Cons.IH learn_call_def)
qed

lemma choose_each_example_batch3:
  "choose_each (example_learner [1/2, 1/2]) example_batch3
     = (Some [(IntV 0, 1/2), (IntV 0, 1/2), (IntV 0, 1/2)], example_learner [1/2, 1/2])"
  by (simp add: eval_defs)

lemma choose_each_example_batch:
  "choose_each (example_learner [1/2, 1/2]) example_batch
     = (Some [(IntV 0, 1/2), (IntV 0, 1/2)], example_learner [1/2, 1/2])"
  by (simp add: eval_defs)

lemma process_batch_example_batch3:
  "fst (process_batch example_batch3 (example_learner [1/2, 1/2]) (\<lambda>ts. Inr rs))
     = (if rs = [] then Inl StatisticsError else Inr (rounded_mean rs))"
proof -
  have "fst (process_batch example_batch3 (example_learner [1/2, 1/2]) (\<lambda>ts. Inr rs))
     = (if rs = [] then Inl StatisticsError
        else Inr (py_round (to_double (sum_list rs / of_nat (length rs))) 5))"
    by (rule process_batch_forward(1) [OF choose_each_example_batch3])
       (simp_all add: learn_loop_fixed_learner)
  then show ?thesis by (simp only: py_round_rounded_mean)
qed

lemma rounded_mean_fifths:
  "rounded_mean [to_double (1/5), to_double (2/5), to_double (3/5)] = to_double (2/5)"
  by code_simp

lemma rounded_mean_thirds:
  "rounded_mean [to_double (1/3), to_double (1/3), to_double (1/3)] = to_double (33333/100000)"
  by code_simp

lemma rounded_mean_near_tie:
  "rounded_mean [1/2, to_double (50001/100000)] = to_double (50001/100000)"
  by code_simp

lemma exact_mean_near_tie:
  "round_half_even ((1/2 + to_double (50001/100000)) / 2 * 100000) = 50000"
  by code_simp

lemma floats_fixed:
  "to_double (1/2) = 1/2 \<and> to_double (to_double (50001/100000)) = to_double (50001/100000)
   \<and> to_double (to_double (1/5)) = to_double (1/5)
   \<and> to_double (to_double (2/5)) = to_double (2/5)
   \<and> to_double (to_double (3/5)) = to_double (3/5)
   \<and> to_double (to_double (1/3)) = to_double (1/3)"
  by code_simp

text \<open>
  Claim C8. The mean reward of a batch is \<open>round(mean(rewards), 5)\<close> on floats: the
  arithmetic mean of the rewards that the reward function returned for the triples of this
  batch, as the float nearest to it, rounded to 5 decimal digits (half to even, the decimal
  number again as the float nearest to it); an empty reward sequence raises. The i-th entry
  of the record's \<open>reward\<close> sequence is this value for the i-th request for rewards, whose
  triples carry the keys and contexts of the i-th batch. A conversion to a float moves a
  number by at most half a unit in the last of 53 bits, and the rounding to 5 digits by at
  most 0.000005. Float rewards [0.2, 0.4, 0.6] record the float 0.4, [1/3, 1/3, 1/3] the
  float 0.33333, and [0.5, 0.50001] the float 0.50001.
\<close>

theorem process_batch_mean_reward:
  "(choose_each L batch = (Some aps, L1)
      \<longrightarrow> rwd (zip (map ikey batch) (zip (map icontext batch) (map fst aps))) = Inr rewards
      \<longrightarrow> fst (learn_loop L1 (zip (map ikey batch) (zip (map icontext batch)
                 (zip (map fst aps) (zip rewards (map snd aps)))))) = None
      \<longrightarrow> fst (process_batch batch L rwd)
            = (if rewards = [] then Inl StatisticsError else Inr (rounded_mean rewards)))
   \<and> (process_batch batch L rwd = (Inr m, L', tr)
      \<longrightarrow> (\<exists>triples rs. observed tr = [triples]
             \<and> map fst triples = map ikey batch
             \<and> map (\<lambda>q. fst (snd q)) triples = map icontext batch
             \<and> rwd triples = Inr rs \<and> rs \<noteq> [] \<and> m = rounded_mean rs))
   \<and> (evaluate s l L batches rwd = (Inr t, L2, tr2)
      \<longrightarrow> list_all2 (\<lambda>batch triples. map fst triples = map ikey batch
                \<and> map (\<lambda>q. fst (snd q)) triples = map icontext batch) batches (observed tr2)
          \<and> list_all2 (\<lambda>triples m. \<exists>rs. rwd triples = Inr rs \<and> rs \<noteq> [] \<and> m = rounded_mean rs)
                (observed tr2) (t_reward t))
   \<and> rounded_mean rs
       = to_double (of_int (round_half_even
           (to_double (sum_list rs / of_nat (length rs)) * 100000)) / 100000)
   \<and> \<bar>of_int (round_half_even y) - y\<bar> \<le> 1 / 2
   \<and> (y - of_int \<lfloor>y\<rfloor> = 1 / 2 \<longrightarrow> even (round_half_even y))
   \<and> \<bar>to_double x - x\<bar> \<le> pow2 (max (float_exponent x) (- 1022) - 53)
   \<and> (x \<noteq> 0 \<longrightarrow> pow2 (float_exponent x) \<le> \<bar>x\<bar> \<and> \<bar>x\<bar> < pow2 (float_exponent x + 1))
   \<and> (x \<noteq> 0 \<longrightarrow> - 1022 \<le> float_exponent x \<longrightarrow> \<bar>to_double x - x\<bar> \<le> \<bar>x\<bar> / 2 ^ 53)
   \<and> fst (process_batch example_batch3 (example_learner [1/2, 1/2])
            (\<lambda>ts. Inr [to_double (1/5), to_double (2/5), to_double (3/5)]))
       = Inr (to_double (2/5))
   \<and> fst (process_batch example_batch3 (example_learner [1/2, 1/2])
            (\<lambda>ts. Inr [to_double (1/3), to_double (1/3), to_double (1/3)]))
       = Inr (to_double (33333/100000))
   \<and> rounded_mean [1/2, to_double (50001/100000)] = to_double (50001/100000)"
proof (intro conjI impI)
  assume h: "choose_each L batch = (Some aps, L1)"
    "rwd (zip (map ikey batch) (zip (map icontext batch) (map fst aps))) = Inr rewards"
    "fst (learn_loop L1 (zip (map ikey batch) (zip (map icontext batch)
                 (zip (map fst aps) (zip rewards (map snd aps)))))) = None"
  have "fst (process_batch batch L rwd)
           = (if rewards = [] then Inl StatisticsError
              else Inr (py_round (to_double (sum_list rewards / of_nat (length rewards))) 5))"
    using h by (rule process_batch_forward(1))
  then show "fst (process_batch batch L rwd)
            = (if rewards = [] then Inl StatisticsError else Inr (rounded_mean rewards))"
    by (simp only: py_round_rounded_mean)
next
  assume "process_batch batch L rwd = (Inr m, L', tr)"
  then show "\<exists>triples rs. observed tr = [triples]
             \<and> map fst triples = map ikey batch
             \<and> map (\<lambda>q. fst (snd q)) triples = map icontext batch
             \<and> rwd triples = Inr rs \<and> rs \<noteq> [] \<and> m = rounded_mean rs"
    by (rule process_batch_observed)
next
  assume h: "evaluate s l L batches rwd = (Inr t, L2, tr2)"
  from evaluate_success [OF h] obtain L0 tr' where
    p: "process_batches L0 batches rwd = (Inr (t_reward t), L2, tr')" and tr: "tr2 = EvInit # tr'"
    by blast
  have o: "observed tr2 = observed tr'" by (simp add: tr)
  from process_batches_success [OF p]
  show "list_all2 (\<lambda>batch triples. map fst triples = map ikey batch
                \<and> map (\<lambda>q. fst (snd q)) triples = map icontext batch) batches (observed tr2)"
    and "list_all2 (\<lambda>triples m. \<exists>rs. rwd triples = Inr rs \<and> rs \<noteq> [] \<and> m = rounded_mean rs)
                (observed tr2) (t_reward t)"
    by (simp_all only: o)
next
  show "rounded_mean rs
       = to_double (of_int (round_half_even
           (to_double (sum_list rs / of_nat (length rs)) * 100000)) / 100000)"
    by (simp add: rounded_mean_def)
  show "\<bar>of_int (round_half_even y) - y\<bar> \<le> 1 / 2" by (rule round_half_even_near)
  show "\<bar>to_double x - x\<bar> \<le> pow2 (max (float_exponent x) (- 1022) - 53)"
    by (rule to_double_near)
  show "fst (process_batch example_batch3 (example_learner [1/2, 1/2])
            (\<lambda>ts. Inr [to_double (1/5), to_double (2/5), to_double (3/5)]))
       = Inr (to_double (2/5))"
    by (simp add: process_batch_example_batch3 rounded_mean_fifths)
  show "fst (process_batch example_batch3 (example_learner [1/2, 1/2])
            (\<lambda>ts. Inr [to_double (1/3), to_double (1/3), to_double (1/3)]))
       = Inr (to_double (33333/100000))"
    by (simp add: process_batch_example_batch3 rounded_mean_thirds)
  show "rounded_mean [1/2, to_double (50001/100000)] = to_double (50001/100000)"
    by (rule rounded_mean_near_tie)
next
  assume "y - of_int \<lfloor>y\<rfloor> = 1 / 2"
  then show "even (round_half_even y)" by (rule round_half_even_tie)
next
  assume "x \<noteq> 0"
  then show "pow2 (float_exponent x) \<le> \<bar>x\<bar>" "\<bar>x\<bar> < pow2 (float_exponent x + 1)"
    using float_exponent_bounds by simp_all
next
  assume "x \<noteq> 0" "- 1022 \<le> float_exponent x"
  then show "\<bar>to_double x - x\<bar> \<le> \<bar>x\<bar> / 2 ^ 53"
    using to_double_relative by simp
qed

text \<open>
  An instance: the two float rewards 0.5 and 0.50001. Their exact mean lies below the tie
  0.500005 and would round to 0.5; the float nearest to the mean lies above it, and the
  engine records 0.50001. The record of a simulation of two batches holds the value of the
  first batch first.
\<close>

theorem process_batch_mean_reward_witness:
  "choose_each (example_learner [1/2, 1/2]) example_batch
     = (Some [(IntV 0, 1/2), (IntV 0, 1/2)], example_learner [1/2, 1/2])
   \<and> fst (process_batch example_batch (example_learner [1/2, 1/2])
          (\<lambda>ts. Inr [1/2, to_double (50001/100000)]))
     = Inr (to_double (50001/100000))
   \<and> round_half_even ((1/2 + to_double (50001/100000)) / 2 * 100000) = 50000
   \<and> fst (evaluate 0 0 (example_learner [1/2, 1/2]) [[example_batch ! 0], [example_batch ! 1]]
          (\<lambda>ts. Inr (map (\<lambda>q. if fst q = 0 then 1/2 else to_double (50001/100000)) ts)))
     = Inr \<lparr>t_sim_id = 0, t_lrn_id = 0, t_C = [3, 0], t_A = [2, 2], t_N = [1, 1],
            t_reward = [1/2, to_double (50001/100000)]\<rparr>"
proof -
  let ?L = "example_learner [1/2, 1/2]"
  let ?rwd = "\<lambda>ts :: (key \<times> ctx \<times> action) list.
      (Inr [1/2, to_double (50001/100000)] :: exn + rat list)"
  have c: "choose_each ?L example_batch = (Some [(IntV 0, 1/2), (IntV 0, 1/2)], ?L)"
    by (rule choose_each_example_batch)
  have r: "?rwd (zip (map ikey example_batch) (zip (map icontext example_batch)
             (map fst [(IntV 0, 1/2 :: rat), (IntV 0, 1/2)])))
           = Inr [1/2, to_double (50001/100000)]"
    by simp
  have l: "fst (learn_loop ?L (zip (map ikey example_batch) (zip (map icontext example_batch)
             (zip (map fst [(IntV 0, 1/2 :: rat), (IntV 0, 1/2)])
                (zip [1/2, to_double (50001/100000)]
                   (map snd [(IntV 0, 1/2 :: rat), (IntV 0, 1/2)])))))) = None"
    by (simp add: learn_loop_fixed_learner)
  from process_batch_mean_reward [of ?L example_batch "[(IntV 0, 1/2), (IntV 0, 1/2)]" ?L ?rwd
      "[1/2, to_double (50001/100000)]"]
  have "fst (process_batch example_batch ?L ?rwd)
      = (if [1/2, to_double (50001/100000)] = [] then Inl StatisticsError
         else Inr (rounded_mean [1/2, to_double (50001/100000)]))"
    using c r l by blast
  then have p: "fst (process_batch example_batch ?L ?rwd) = Inr (to_double (50001/100000))"
    by (simp add: rounded_mean_near_tie)
  have h: "py_round (to_double (1/2)) 5 = 1/2"
    "py_round (to_double (to_double (50001/100000))) 5 = to_double (50001/100000)"
    by code_simp+
  have e: "fst (evaluate 0 0 ?L [[example_batch ! 0], [example_batch ! 1]]
          (\<lambda>ts. Inr (map (\<lambda>q. if fst q = 0 then 1/2 else to_double (50001/100000)) ts)))
     = Inr \<lparr>t_sim_id = 0, t_lrn_id = 0, t_C = [3, 0], t_A = [2, 2], t_N = [1, 1],
            t_reward = [1/2, to_double (50001/100000)]\<rparr>"
    using h
    by (simp add: evaluate_def process_batch_def choose_action_def predict_def learn_def
        set_lstate_def fixed_learner_def first_choice_def example_learner_def example_batch_def
        mean_def init_def int_median_def median_def py_int_def context_sizes_def
        action_counts_def Let_def)
  from c p exact_mean_near_tie e show ?thesis by blast
qed

section \<open>Context sizes and empty batches\<close>

lemma py_int_of_nat: "py_int (of_nat n) = int n"
  by (simp add: py_int_def)

lemma py_int_half: "py_int ((of_nat a + of_nat b) / 2) = int ((a + b) div 2)"
proof -
  have "(of_nat a + of_nat b) / (2 :: rat) = of_nat (a + b) / of_nat 2" by simp
  then have "\<lfloor>(of_nat a + of_nat b) / (2 :: rat)\<rfloor> = int ((a + b) div 2)"
    by (simp only: floor_divide_of_nat_eq)
  moreover have "0 \<le> (of_nat a + of_nat b) / (2 :: rat)" by simp
  ultimately show ?thesis by (simp add: py_int_def)
qed

lemma int_median_nonempty:
  "xs \<noteq> [] \<Longrightarrow>
   int_median xs = Inr (if odd (length xs) then int (sort xs ! (length xs div 2))
                       else int ((sort xs ! (length xs div 2 - 1) + sort xs ! (length xs div 2)) div 2))"
proof -
  assume "xs \<noteq> []"
  then have "sort xs \<noteq> []" by (metis length_0_conv length_sort)
  then show ?thesis
    by (simp add: int_median_def median_def Let_def py_int_of_nat py_int_half odd_iff_mod_2_eq_one)
qed

lemma int_median_empty: "int_median [] = Inl StatisticsError"
  by (simp add: int_median_def median_def)

lemma comprehension_map:
  "comprehension f xs = Inr ys \<Longrightarrow> map f xs = map Inr ys"
  by (induction xs arbitrary: ys) (auto split: sum.splits)

lemma context_sizes_nonempty: "batch \<noteq> [] \<Longrightarrow> context_sizes batch \<noteq> []"
  by (simp add: context_sizes_def)

lemma comprehension_context_sizes_empty_batch:
  "[] \<in> set batches \<Longrightarrow>
   comprehension (\<lambda>batch. int_median (context_sizes batch)) batches = Inl StatisticsError"
proof (induction batches)
  case Nil
  then show ?case by simp
next
  case (Cons b bs)
  show ?case
  proof (cases "b = []")
    case True
    then show ?thesis by (simp add: context_sizes_def int_median_empty)
  next
    case False
    then have "[] \<in> set bs" using Cons.prems by auto
    then have r: "comprehension (\<lambda>batch. int_median (context_sizes batch)) bs = Inl StatisticsError"
      by (rule Cons.IH)
    from False have "context_sizes b \<noteq> []" by (rule context_sizes_nonempty)
    from int_median_nonempty [OF this] obtain v where "int_median (context_sizes b) = Inr v"
      by blast
    then show ?thesis by (simp add: r)
  qed
qed

lemma evaluate_empty_batch:
  assumes "[] \<in> set batches"
  shows "evaluate s l L batches rwd
     = (Inl (case fst (init L) of Some e \<Rightarrow> e | None \<Rightarrow> StatisticsError), snd (init L), [EvInit])"
proof -
  obtain x L0 where i: "init L = (x, L0)" by (metis surj_pair)
  show ?thesis
    by (cases x)
       (simp_all add: evaluate_def i comprehension_context_sizes_empty_batch [OF assms])
qed

lemma learner_loop_no_record:
  assumes "\<And>l (L :: ('s, 'r) task_learner). \<exists>e. fst (evaluate s l L batches rwd) = Inl e"
  shows "fst (fst (learner_loop ir s batches rwd is ids (ls :: ('s, 'r) task_learner list))) = []"
proof (induction "is" arbitrary: ids ls)
  case Nil
  show ?case by simp
next
  case (Cons i "is")
  show ?case
  proof (cases "\<not> i < length ids \<or> \<not> i < length ls")
    case True
    then show ?thesis by auto
  next
    case False
    obtain r L' tr where ev: "evaluate s (ids ! i) (ls ! i) batches rwd = (r, L', tr)"
      by (metis surj_pair)
    from assms [of "ids ! i" "ls ! i"] ev obtain e where r: "r = Inl e" by auto
    obtain ts tr' x pend where
      rec: "learner_loop ir s batches rwd is (del ids i) (del ls i) = ((ts, tr', x), pend)"
      by (metis surj_pair)
    from Cons.IH [of "del ids i" "del ls i"] rec have ts: "ts = []" by simp
    show ?thesis
      using False rec ts by (cases ir) (simp_all add: ev r Let_def)
  qed
qed

lemma floor_three_halves: "\<lfloor>(3 :: rat) / 2\<rfloor> = 1"
  by linarith

lemmas stat_defs = int_median_def median_def py_int_def context_sizes_def action_counts_def
  floor_three_halves

text \<open>
  Claim C9 as stated fails: for the two contexts (1, 2, 3) and \<open>None\<close> the sizes are
  [3, 0], the engine records 1, and the lower of the two middle values is 0.
\<close>

theorem context_size_lower_middle_counterexample:
  "even (length example_batch)
   \<and> context_sizes example_batch = [3, 0]
   \<and> int_median (context_sizes example_batch) = Inr 1
   \<and> int_median (context_sizes example_batch)
       \<noteq> Inr (int (lower_middle (context_sizes example_batch)))"
  by (simp add: example_batch_def stat_defs lower_middle_def Let_def)

text \<open>
  Claim C9, amended. The size of a context is 0 for \<open>None\<close>, the number of elements for a
  tuple and 1 otherwise. For every non-empty batch the recorded context size is the middle
  value of the sorted sizes when their number is odd, and the mean of the two middle
  values truncated to an integer when it is even; sizes [3, 0] record 1.
\<close>

theorem context_size_median:
  "(batch \<noteq> [] \<longrightarrow>
      int_median (context_sizes batch)
        = Inr (if odd (length batch)
               then int (sort (context_sizes batch) ! (length batch div 2))
               else int ((sort (context_sizes batch) ! (length batch div 2 - 1)
                          + sort (context_sizes batch) ! (length batch div 2)) div 2)))
   \<and> context_sizes batch
       = map (\<lambda>i. case icontext i of NoContext \<Rightarrow> 0 | TupleContext xs \<Rightarrow> length xs
                     | ScalarContext v \<Rightarrow> 1) batch
   \<and> (evaluate s l L batches rwd = (Inr t, L', tr)
       \<longrightarrow> map Inr (t_C t) = map (\<lambda>b. int_median (context_sizes b)) batches)
   \<and> int_median (context_sizes example_batch) = Inr 1"
proof (intro conjI impI)
  assume b: "batch \<noteq> []"
  then have "context_sizes batch \<noteq> []" by (rule context_sizes_nonempty)
  from int_median_nonempty [OF this]
  show "int_median (context_sizes batch)
        = Inr (if odd (length batch)
               then int (sort (context_sizes batch) ! (length batch div 2))
               else int ((sort (context_sizes batch) ! (length batch div 2 - 1)
                          + sort (context_sizes batch) ! (length batch div 2)) div 2))"
    by (simp add: context_sizes_def)
next
  have "context_size c = (case c of NoContext \<Rightarrow> 0 | TupleContext xs \<Rightarrow> length xs
                     | ScalarContext v \<Rightarrow> 1)" for c
    by (cases c) simp_all
  then show "context_sizes batch
       = map (\<lambda>i. case icontext i of NoContext \<Rightarrow> 0 | TupleContext xs \<Rightarrow> length xs
                     | ScalarContext v \<Rightarrow> 1) batch"
    by (simp add: context_sizes_def)
next
  assume "evaluate s l L batches rwd = (Inr t, L', tr)"
  from evaluate_success [OF this]
  have "comprehension (\<lambda>batch. int_median (context_sizes batch)) batches = Inr (t_C t)"
    by blast
  from comprehension_map [OF this]
  show "map Inr (t_C t) = map (\<lambda>b. int_median (context_sizes b)) batches" by simp
next
  show "int_median (context_sizes example_batch) = Inr 1"
    by (simp add: example_batch_def stat_defs Let_def)
qed

theorem context_size_median_witness:
  "example_batch3 \<noteq> []
   \<and> sort (context_sizes example_batch3) = [0, 1, 3]
   \<and> int_median (context_sizes example_batch3) = Inr 1
   \<and> evaluate 0 0 (example_learner [1/2, 1/2]) [example_batch] (\<lambda>ts. Inr (map (\<lambda>t. 1) ts))
      = (Inr \<lparr>t_sim_id = 0, t_lrn_id = 0, t_C = [1], t_A = [2], t_N = [2], t_reward = [1]\<rparr>,
         example_learner [1/2, 1/2],
         [EvInit,
          EvChoose 0 (TupleContext [IntV 1, IntV 2, IntV 3]) [IntV 0, IntV 1],
          EvChoose 1 NoContext [IntV 0, IntV 1],
          EvObserve [(0, TupleContext [IntV 1, IntV 2, IntV 3], IntV 0), (1, NoContext, IntV 0)],
          EvLearn 0 (TupleContext [IntV 1, IntV 2, IntV 3]) (IntV 0) 1 (1/2),
          EvLearn 1 NoContext (IntV 0) 1 (1/2)])"
proof -
  have n: "example_batch3 \<noteq> []" by (simp add: example_batch3_def)
  have s: "sort (context_sizes example_batch3) = [0, 1, 3]"
    by (simp add: example_batch3_def example_batch_def context_sizes_def)
  have l: "length example_batch3 = 3" by (simp add: example_batch3_def example_batch_def)
  have e: "evaluate 0 0 (example_learner [1/2, 1/2]) [example_batch] (\<lambda>ts. Inr (map (\<lambda>t. 1) ts))
      = (Inr \<lparr>t_sim_id = 0, t_lrn_id = 0, t_C = [1], t_A = [2], t_N = [2], t_reward = [1]\<rparr>,
         example_learner [1/2, 1/2],
         [EvInit,
          EvChoose 0 (TupleContext [IntV 1, IntV 2, IntV 3]) [IntV 0, IntV 1],
          EvChoose 1 NoContext [IntV 0, IntV 1],
          EvObserve [(0, TupleContext [IntV 1, IntV 2, IntV 3], IntV 0), (1, NoContext, IntV 0)],
          EvLearn 0 (TupleContext [IntV 1, IntV 2, IntV 3]) (IntV 0) 1 (1/2),
          EvLearn 1 NoContext (IntV 0) 1 (1/2)])"
    by (simp add: evaluate_def eval_defs stat_defs)
  from context_size_median [of example_batch3] n
  have "int_median (context_sizes example_batch3)
        = Inr (if odd (length example_batch3)
               then int (sort (context_sizes example_batch3) ! (length example_batch3 div 2))
               else int ((sort (context_sizes example_batch3) ! (length example_batch3 div 2 - 1)
                          + sort (context_sizes example_batch3) ! (length example_batch3 div 2)) div 2))"
    by blast
  then have "int_median (context_sizes example_batch3) = Inr 1"
    by (simp add: s l)
  with n s e show ?thesis by blast
qed

text \<open>
  Claim C10. When one of the batches of a simulation has no interaction, the evaluation of
  every learner raises before any batch is processed: the exception of \<open>init\<close> if it
  raised, and otherwise \<open>StatisticsError\<close> from the median of no context size (the action
  counts of an empty batch are [0], whose median is 0). The loop over the learners then
  yields no record, with or without suppression.
\<close>

theorem empty_batch_no_record:
  "([] \<in> set batches \<longrightarrow>
      evaluate s l L batches rwd
        = (Inl (case fst (init L) of Some e \<Rightarrow> e | None \<Rightarrow> StatisticsError), snd (init L), [EvInit])
      \<and> yielded_of (fst (learner_loop ir s batches rwd is ids
            (ls :: ('s, 'r) task_learner list))) = [])
   \<and> int_median (context_sizes []) = Inl StatisticsError
   \<and> int_median (action_counts []) = Inr 0"
proof (intro conjI impI)
  assume b: "[] \<in> set batches"
  show "evaluate s l L batches rwd
        = (Inl (case fst (init L) of Some e \<Rightarrow> e | None \<Rightarrow> StatisticsError), snd (init L), [EvInit])"
    by (rule evaluate_empty_batch [OF b])
  have "\<exists>e. fst (evaluate s l' L' batches rwd) = Inl e" for l' and L' :: "('s, 'r) task_learner"
    by (simp add: evaluate_empty_batch [OF b])
  then show "fst (fst (learner_loop ir s batches rwd is ids ls)) = []"
    by (rule learner_loop_no_record)
next
  show "int_median (context_sizes []) = Inl StatisticsError"
    by (simp add: stat_defs)
  show "int_median (action_counts []) = Inr 0"
    by (simp add: stat_defs)
qed

theorem empty_batch_no_record_witness:
  "[] \<in> set [example_batch, []]
   \<and> evaluate 0 1 (example_learner [1/2, 1/2]) [example_batch, []] (\<lambda>ts. Inr (map (\<lambda>t. 1) ts))
       = (Inl StatisticsError, example_learner [1/2, 1/2], [EvInit])
   \<and> learner_loop True 0 [example_batch, []] (\<lambda>ts. Inr (map (\<lambda>t. 1) ts)) [1, 0] [0, 1]
        [example_learner [1/2, 1/2], example_learner [1/2, 1/2]]
       = (([], [EvAttempt 0 1, EvInit, EvLogException StatisticsError,
                EvAttempt 0 0, EvInit, EvLogException StatisticsError], None), [], [])"
proof -
  let ?L = "example_learner [1/2, 1/2]"
  let ?rwd = "\<lambda>ts :: (key \<times> ctx \<times> action) list. (Inr (map (\<lambda>t. 1) ts) :: exn + rat list)"
  have m: "[] \<in> set [example_batch, []]" by simp
  have i: "init ?L = (None, ?L)" by (simp add: eval_defs)
  from empty_batch_no_record [of "[example_batch, []]" 0 1 ?L ?rwd True "[1, 0]" "[0, 1]" "[?L, ?L]"] m
  have e: "evaluate 0 1 ?L [example_batch, []] ?rwd
        = (Inl (case fst (init ?L) of Some e \<Rightarrow> e | None \<Rightarrow> StatisticsError), snd (init ?L), [EvInit])"
    by blast
  have e1: "evaluate 0 1 ?L [example_batch, []] ?rwd = (Inl StatisticsError, ?L, [EvInit])"
    using e by (simp add: i)
  have e0: "evaluate 0 0 ?L [example_batch, []] ?rwd = (Inl StatisticsError, ?L, [EvInit])"
    using evaluate_empty_batch [OF m, of 0 0 ?L ?rwd] by (simp add: i)
  have "learner_loop True 0 [example_batch, []] ?rwd [1, 0] [0, 1] [?L, ?L]
       = (([], [EvAttempt 0 1, EvInit, EvLogException StatisticsError,
                EvAttempt 0 0, EvInit, EvLogException StatisticsError], None), [], [])"
    by (simp add: e1 [unfolded One_nat_def] e0 del_def)
  with m e1 show ?thesis by blast
qed

section \<open>The loop over the learners of a simulation\<close>






lemma calls_no_attempt: "list_all is_call tr \<Longrightarrow> filter is_attempt tr = []"
proof (induction tr)
  case Nil
  show ?case by simp
next
  case (Cons e tr)
  then show ?case by (cases e) simp_all
qed






lemmas loop_defs = evaluate_def eval_defs stat_defs del_def

lemma evaluate_example_good:
  "evaluate s l (example_learner [1/2, 1/2]) [example_batch] (\<lambda>ts. Inr (map (\<lambda>t. 1) ts))
   = (Inr \<lparr>t_sim_id = s, t_lrn_id = l, t_C = [1], t_A = [2], t_N = [2], t_reward = [1]\<rparr>,
      example_learner [1/2, 1/2],
      [EvInit,
       EvChoose 0 (TupleContext [IntV 1, IntV 2, IntV 3]) [IntV 0, IntV 1],
       EvChoose 1 NoContext [IntV 0, IntV 1],
       EvObserve [(0, TupleContext [IntV 1, IntV 2, IntV 3], IntV 0), (1, NoContext, IntV 0)],
       EvLearn 0 (TupleContext [IntV 1, IntV 2, IntV 3]) (IntV 0) 1 (1/2),
       EvLearn 1 NoContext (IntV 0) 1 (1/2)])"
  by (simp add: loop_defs)

lemma evaluate_example_bad:
  "evaluate s l (example_learner [1/2, 3/5]) [example_batch] (\<lambda>ts. Inr (map (\<lambda>t. 1) ts))
   = (Inl AssertionError, example_learner [1/2, 3/5],
      [EvInit, EvChoose 0 (TupleContext [IntV 1, IntV 2, IntV 3]) [IntV 0, IntV 1]])"
  by (simp add: loop_defs)


section \<open>The order of the visits of the engine\<close>













lemmas engine_defs = Transactions_filter_def GroupByNone_filter_def GroupBySource_filter_def
  process_group_def srt_src_def grp_src_def srt_sim_def grp_sim_def example_world_def
  sim_filter_def evaluate_example_good del_def Let_def




section \<open>Failure isolation\<close>






lemma example_tasks_one_failing_eq:
  "example_tasks_one_failing =
     [\<lparr>src_id = 0, sim_id = 0, lrn_id = 0, simulation = \<lparr>obj = 0, pipe = SourceFilters 7 1\<rparr>,
       learner = example_learner [1/2, 1/2]\<rparr>,
      \<lparr>src_id = 0, sim_id = 0, lrn_id = 1, simulation = \<lparr>obj = 1, pipe = SourceFilters 7 1\<rparr>,
       learner = example_learner [1/2, 3/5]\<rparr>,
      \<lparr>src_id = 0, sim_id = 0, lrn_id = 2, simulation = \<lparr>obj = 2, pipe = SourceFilters 7 1\<rparr>,
       learner = example_learner [1/2, 1/2]\<rparr>]"
  by (simp add: example_tasks_one_failing_def Tasks_read_def BenchmarkTask_def getitem_def Let_def
      example_learner_def)



section \<open>The learners of a simulation\<close>

lemma read_loop_wrappers:
  "map (\<lambda>t. obj (simulation t)) (read_loop nr seed d a ps) = [a..<a + length ps]"
proof (induction ps arbitrary: d a)
  case Nil
  show ?case by simp
next
  case (Cons p ps)
  obtain i s j l where p: "p = ((i, s), (j, l))" by (metis surj_pair)
  obtain sid d' where g: "getitem d (case s of SourceFilters src flt \<Rightarrow> src | PlainSource src \<Rightarrow> src) = (sid, d')"
    by (metis surj_pair)
  have "map (\<lambda>t. obj (simulation t)) (read_loop nr seed d a (p # ps))
      = a # map (\<lambda>t. obj (simulation t)) (read_loop nr seed d' (Suc a) ps)"
    by (simp add: p g BenchmarkTask_def)
  also have "\<dots> = a # [Suc a..<Suc a + length ps]"
    by (simp only: Cons.IH)
  also have "\<dots> = [a..<a + length (p # ps)]"
    by (simp add: upt_rec)
  finally show ?case .
qed

lemma Tasks_read_wrappers:
  "map (\<lambda>t. obj (simulation t)) (Tasks_read nr sims lrns seed) = [0..<length sims * length lrns]"
  by (simp add: Tasks_read_def read_loop_wrappers length_product)

lemma groupby_singletons:
  "distinct (map f xs) \<Longrightarrow> groupby f xs = map (\<lambda>x. (f x, [x])) xs"
proof (induction xs)
  case Nil
  show ?case by simp
next
  case (Cons x xs)
  have t: "takeWhile (\<lambda>y. f y = f x) xs = []"
    using Cons.prems by (cases xs) auto
  have d: "dropWhile (\<lambda>y. f y = f x) xs = xs"
    using Cons.prems by (cases xs) auto
  from Cons show ?case by (simp add: t d)
qed

lemma groupby_concat: "concat (map snd (groupby f xs)) = xs"
  by (induction f xs rule: groupby.induct) simp_all

lemma distinct_map_inner:
  "distinct (map (\<lambda>x. h (f x)) xs) \<Longrightarrow> distinct (map f xs)"
  by (induction xs) auto

lemma distinct_map_part:
  "distinct (map h (concat xss)) \<Longrightarrow> xs \<in> set xss \<Longrightarrow> distinct (map h xs)"
  by (induction xss) auto

lemma distinct_map_sort_key:
  "distinct (map h (sort_key k xs)) = distinct (map h xs)"
proof -
  have "mset (map h (sort_key k xs)) = mset (map h xs)" by simp
  then show ?thesis by (rule mset_eq_imp_distinct_iff)
qed

lemma groups_of_own_wrappers:
  assumes "distinct (map (\<lambda>t. obj (simulation t)) tasks)"
    and "g \<in> set (groupby grp_src (sort_key srt_src tasks))"
  shows "groupby grp_sim (sort_key srt_sim (snd g))
       = map (\<lambda>t. ((sim_id t, simulation t), [t])) (sort_key srt_sim (snd g))"
proof -
  let ?w = "\<lambda>t :: ('a, 'b) task. obj (simulation t)"
  have "distinct (map ?w (sort_key srt_src tasks))"
    using assms(1) by (simp only: distinct_map_sort_key)
  then have "distinct (map ?w (concat (map snd (groupby grp_src (sort_key srt_src tasks)))))"
    by (simp only: groupby_concat)
  moreover have "snd g \<in> set (map snd (groupby grp_src (sort_key srt_src tasks)))"
    using assms(2) by simp
  ultimately have "distinct (map ?w (snd g))" by (rule distinct_map_part)
  then have "distinct (map ?w (sort_key srt_sim (snd g)))"
    by (simp only: distinct_map_sort_key)
  then have "distinct (map (\<lambda>t. obj (snd (grp_sim t))) (sort_key srt_sim (snd g)))"
    by (simp add: grp_sim_def)
  then have "distinct (map grp_sim (sort_key srt_sim (snd g)))"
    by (rule distinct_map_inner)
  from groupby_singletons [OF this] show ?thesis
    by (simp add: grp_sim_def)
qed

text \<open>
  Claim C7 does not hold of the engine. The engine collects the learners of a simulation
  by grouping the tasks of a source on the pair of the simulation id and the simulation
  wrapper of the task. \<open>BenchmarkTask\<close> gives every task a wrapper of its own, and wrappers
  are compared by identity: whenever the wrappers of the tasks differ, as those of the
  tasks that \<open>Tasks.read\<close> builds do, every such group holds a single task. The loop over
  the learners, which attempts its learners last collected first and removes each after
  its attempt, therefore always runs on one learner: the learners of a simulation are
  attempted in the order in which they were collected, and the simulation is created anew
  for each of them. For one simulation and three learners, the second failing, the engine
  creates simulation 0 three times and attempts the learners 0, 1, 2 in this order; without
  suppression it stops at learner 1 and never attempts learner 2.
\<close>

theorem learners_attempted_in_collection_order:
  "map (\<lambda>t. obj (simulation t)) (Tasks_read nr sims lrns seed) = [0..<length sims * length lrns]
   \<and> (distinct (map (\<lambda>t. obj (simulation t)) tasks) \<longrightarrow>
        (\<forall>g \<in> set (groupby grp_src (sort_key srt_src tasks)).
            groupby grp_sim (sort_key srt_sim (snd g))
              = map (\<lambda>t. ((sim_id t, simulation t), [t])) (sort_key srt_sim (snd g))))
   \<and> map (\<lambda>t. (sim_id t, lrn_id t)) example_tasks_one_failing = [(0, 0), (0, 1), (0, 2)]
   \<and> filter is_visit (events_of (Transactions_filter True example_world
         (GroupBySource_filter example_tasks_one_failing)))
       = [EvRead 0 7, EvCreate 0, EvCreate 0, EvCreate 0]
   \<and> filter is_attempt (events_of (Transactions_filter True example_world
         (GroupBySource_filter example_tasks_one_failing)))
       = [EvAttempt 0 0, EvAttempt 0 1, EvAttempt 0 2]
   \<and> map t_lrn_id (yielded_of (Transactions_filter True example_world
         (GroupBySource_filter example_tasks_one_failing))) = [0, 2]
   \<and> filter is_attempt (events_of (Transactions_filter False example_world
         (GroupBySource_filter example_tasks_one_failing)))
       = [EvAttempt 0 0, EvAttempt 0 1]
   \<and> raised_of (Transactions_filter False example_world
         (GroupBySource_filter example_tasks_one_failing)) = Some AssertionError"
proof (intro conjI impI ballI)
  show "map (\<lambda>t. obj (simulation t)) (Tasks_read nr sims lrns seed) = [0..<length sims * length lrns]"
    by (rule Tasks_read_wrappers)
next
  fix g
  assume "distinct (map (\<lambda>t. obj (simulation t)) tasks)"
    and "g \<in> set (groupby grp_src (sort_key srt_src tasks))"
  then show "groupby grp_sim (sort_key srt_sim (snd g))
              = map (\<lambda>t. ((sim_id t, simulation t), [t])) (sort_key srt_sim (snd g))"
    by (rule groups_of_own_wrappers)
next
  show "map (\<lambda>t. (sim_id t, lrn_id t)) example_tasks_one_failing = [(0, 0), (0, 1), (0, 2)]"
    unfolding example_tasks_one_failing_eq by simp
  show "filter is_visit (events_of (Transactions_filter True example_world
         (GroupBySource_filter example_tasks_one_failing)))
       = [EvRead 0 7, EvCreate 0, EvCreate 0, EvCreate 0]"
    unfolding example_tasks_one_failing_eq by (simp add: engine_defs evaluate_example_bad)
  show "filter is_attempt (events_of (Transactions_filter True example_world
         (GroupBySource_filter example_tasks_one_failing)))
       = [EvAttempt 0 0, EvAttempt 0 1, EvAttempt 0 2]"
    unfolding example_tasks_one_failing_eq by (simp add: engine_defs evaluate_example_bad)
  show "map t_lrn_id (yielded_of (Transactions_filter True example_world
         (GroupBySource_filter example_tasks_one_failing))) = [0, 2]"
    unfolding example_tasks_one_failing_eq by (simp add: engine_defs evaluate_example_bad)
  show "filter is_attempt (events_of (Transactions_filter False example_world
         (GroupBySource_filter example_tasks_one_failing)))
       = [EvAttempt 0 0, EvAttempt 0 1]"
    unfolding example_tasks_one_failing_eq by (simp add: engine_defs evaluate_example_bad)
  show "raised_of (Transactions_filter False example_world
         (GroupBySource_filter example_tasks_one_failing)) = Some AssertionError"
    unfolding example_tasks_one_failing_eq by (simp add: engine_defs evaluate_example_bad)
qed

theorem learners_attempted_in_collection_order_witness:
  "distinct (map (\<lambda>t. obj (simulation t)) example_tasks_one_failing)
   \<and> map fst (groupby grp_src (sort_key srt_src example_tasks_one_failing)) = [(0, 7)]
   \<and> map (\<lambda>g. (fst (fst g), obj (snd (fst g)), map lrn_id (snd g)))
        (groupby grp_sim (sort_key srt_sim example_tasks_one_failing))
       = [(0, 0, [0]), (0, 1, [1]), (0, 2, [2])]"
proof -
  let ?g = "((0 :: nat, 7 :: nat), example_tasks_one_failing)"
  have d: "distinct (map (\<lambda>t. obj (simulation t)) example_tasks_one_failing)"
    unfolding example_tasks_one_failing_eq by simp
  have s: "groupby grp_src (sort_key srt_src example_tasks_one_failing) = [?g]"
    unfolding example_tasks_one_failing_eq by (simp add: srt_src_def grp_src_def)
  then have m: "?g \<in> set (groupby grp_src (sort_key srt_src example_tasks_one_failing))"
    by simp
  from learners_attempted_in_collection_order [of _ "[]" "[]" _ example_tasks_one_failing] d
  have "\<forall>g \<in> set (groupby grp_src (sort_key srt_src example_tasks_one_failing)).
            groupby grp_sim (sort_key srt_sim (snd g))
              = map (\<lambda>t. ((sim_id t, simulation t), [t])) (sort_key srt_sim (snd g))"
    by blast
  with m have "groupby grp_sim (sort_key srt_sim (snd ?g))
              = map (\<lambda>t. ((sim_id t, simulation t), [t])) (sort_key srt_sim (snd ?g))"
    by blast
  then have "map (\<lambda>g. (fst (fst g), obj (snd (fst g)), map lrn_id (snd g)))
        (groupby grp_sim (sort_key srt_sim example_tasks_one_failing))
       = map (\<lambda>g. (fst (fst g), obj (snd (fst g)), map lrn_id (snd g)))
           (map (\<lambda>t. ((sim_id t, simulation t), [t])) (sort_key srt_sim example_tasks_one_failing))"
    by simp
  also have "\<dots> = [(0, 0, [0]), (0, 1, [1]), (0, 2, [2])]"
    unfolding example_tasks_one_failing_eq by (simp add: srt_sim_def)
  finally show ?thesis using d s by simp
qed

end
